theory Spec2Isabelle
  imports Complex_Main "HOL-Library.Sublist"
begin

section \<open>JavaScript numbers\<close>

text \<open>
  Scores, coordinates and thresholds are JavaScript numbers. Finite values are modelled as
  exact reals (rounding of binary floating point is not modelled). The only places where
  the source can leave the finite numbers are its divisions (by a face width or height
  that is zero), so the result of a division is a \<open>jsnum\<close>: a finite value, an infinity
  or NaN. Timestamps (\<open>Date.now()\<close>) are integers of milliseconds.
\<close>

datatype jsnum = Finite real | PInf | NInf | NaN

definition js_div :: "real \<Rightarrow> real \<Rightarrow> jsnum" where
  \<comment> \<open>\<open>a / b\<close> for a divisor that is \<open>Math.abs\<close> or \<open>Math.hypot\<close> of something: never negative,
      and \<open>+0\<close> when zero.\<close>
  "js_div a b =
     (if b \<noteq> 0 then Finite (a / b)
      else if a > 0 then PInf
      else if a < 0 then NInf
      else NaN)"

definition js_gt :: "jsnum \<Rightarrow> real \<Rightarrow> bool" where
  \<comment> \<open>\<open>a > t\<close>: every comparison with NaN is false.\<close>
  "js_gt a t = (case a of Finite x \<Rightarrow> x > t | PInf \<Rightarrow> True | NInf \<Rightarrow> False | NaN \<Rightarrow> False)"

definition js_lt :: "jsnum \<Rightarrow> real \<Rightarrow> bool" where
  "js_lt a t = (case a of Finite x \<Rightarrow> x < t | PInf \<Rightarrow> False | NInf \<Rightarrow> True | NaN \<Rightarrow> False)"

definition js_abs :: "jsnum \<Rightarrow> jsnum" where
  "js_abs a = (case a of Finite x \<Rightarrow> Finite \<bar>x\<bar> | PInf \<Rightarrow> PInf | NInf \<Rightarrow> PInf | NaN \<Rightarrow> NaN)"

definition hypot :: "real \<Rightarrow> real \<Rightarrow> real" where
  \<comment> \<open>\<open>Math.hypot(a, b)\<close>, also written \<open>Math.sqrt(Math.pow(a, 2) + Math.pow(b, 2))\<close> in the source.\<close>
  "hypot a b = sqrt (a\<^sup>2 + b\<^sup>2)"


section \<open>Landmarks and geometry (services/geometryUtils)\<close>

record point =
  px :: real
  py :: real

text \<open>
  A face landmark set is a JavaScript array whose entries may be missing: an index at or
  beyond the length reads \<open>undefined\<close>, and so does a hole. A hand landmark set is an
  array of points; a \<open>null\<close> hand entry behaves like the empty array everywhere it is read
  (both are caught by the same guards), so it is not modelled apart.
\<close>

type_synonym landmarks = "point option list"
type_synonym hand = "point list"

definition entry :: "landmarks \<Rightarrow> nat \<Rightarrow> point option" where
  \<comment> \<open>\<open>landmarks[i]\<close>; \<open>None\<close> is \<open>undefined\<close>.\<close>
  "entry lm i = (if i < length lm then lm ! i else None)"

definition calculateHeadPose :: "landmarks \<Rightarrow> jsnum \<times> jsnum" where
  \<comment> \<open>Returns \<open>(yaw, pitch)\<close>.\<close>
  "calculateHeadPose lm =
     (if entry lm 1 = None \<or> entry lm 234 = None \<or> entry lm 454 = None \<or> entry lm 152 = None \<or> entry lm 10 = None
      then (Finite 0, Finite 0)
      else
        let noseTip = the (entry lm 1);
            leftCheek = the (entry lm 234);
            rightCheek = the (entry lm 454);
            chin = the (entry lm 152);
            forehead = the (entry lm 10);
            midPointX = (px leftCheek + px rightCheek) / 2;
            width = \<bar>px rightCheek - px leftCheek\<bar>;
            yaw = js_div (px noseTip - midPointX) width;
            midPointY = (py forehead + py chin) / 2;
            height = \<bar>py chin - py forehead\<bar>;
            pitch = js_div (py noseTip - midPointY) height
        in (yaw, pitch))"

definition calculateMouthOpenness :: "landmarks \<Rightarrow> jsnum" where
  "calculateMouthOpenness lm =
     (if entry lm 13 = None \<or> entry lm 14 = None \<or> entry lm 10 = None \<or> entry lm 152 = None
      then Finite 0
      else
        let upperLip = the (entry lm 13);
            lowerLip = the (entry lm 14);
            forehead = the (entry lm 10);
            chin = the (entry lm 152);
            mouthDistance = hypot (px upperLip - px lowerLip) (py upperLip - py lowerLip);
            faceHeight = hypot (px forehead - px chin) (py forehead - py chin)
        in js_div mouthDistance faceHeight)"

datatype exn = TypeError

definition calculateHandFaceDistance :: "hand \<Rightarrow> landmarks \<Rightarrow> exn + real" where
  \<comment> \<open>Reading \<open>.x\<close> of \<open>undefined\<close> throws a TypeError: \<open>handLandmarks[9]\<close> of a hand with
      one to nine points, then \<open>faceLandmarks[1]\<close> of a face without a nose tip.\<close>
  "calculateHandFaceDistance handLandmarks faceLandmarks =
     (if length handLandmarks = 0 then Inr 1
      else if \<not> 9 < length handLandmarks then Inl TypeError
      else
        (case entry faceLandmarks 1 of
           None \<Rightarrow> Inl TypeError
         | Some nose \<Rightarrow>
             Inr (hypot (px (handLandmarks ! 9) - px nose) (py (handLandmarks ! 9) - py nose))))"


section \<open>Hand analysis (services/handMeshUtils)\<close>

datatype GestureType = OPEN_PALM | CLOSED_FIST | POINTING | PEACE_SIGN | THUMBS_UP | OK_SIGN | UNKNOWN

record HandGesture =
  gtype :: GestureType
  confidence :: real
  gdescription :: string

record HandAnalysis =
  gesture :: HandGesture
  isNearFace :: bool
  handSize :: real
  movementSpeed :: real
  suspiciousActivity :: bool

definition digit :: "nat \<Rightarrow> string" where
  \<comment> \<open>The decimal text of a count of fingers (0 to 5).\<close>
  "digit n = (if n = 0 then ''0'' else if n = 1 then ''1'' else if n = 2 then ''2''
              else if n = 3 then ''3'' else if n = 4 then ''4'' else ''5'')"

definition recognizeGesture :: "hand \<Rightarrow> HandGesture" where
  "recognizeGesture lm =
     (if length lm < 21
      then \<lparr>gtype = UNKNOWN, confidence = 0, gdescription = ''Insufficient landmarks''\<rparr>
      else
        let isThumbExtended = (py (lm ! 4) < py (lm ! 3));
            isIndexExtended = (py (lm ! 8) < py (lm ! 6));
            isMiddleExtended = (py (lm ! 12) < py (lm ! 10));
            isRingExtended = (py (lm ! 16) < py (lm ! 14));
            isPinkyExtended = (py (lm ! 20) < py (lm ! 18));
            extendedFingers = length (filter (\<lambda>b. b)
              [isThumbExtended, isIndexExtended, isMiddleExtended, isRingExtended, isPinkyExtended]);
            unknown = \<lparr>gtype = UNKNOWN, confidence = 3/10,
                       gdescription = digit extendedFingers @ '' fingers extended''\<rparr>
        in
        if extendedFingers = 5
        then \<lparr>gtype = OPEN_PALM, confidence = 9/10, gdescription = ''Open palm detected''\<rparr>
        else if extendedFingers = 0
        then \<lparr>gtype = CLOSED_FIST, confidence = 9/10, gdescription = ''Closed fist detected''\<rparr>
        else if isIndexExtended \<and> extendedFingers = 1
        then \<lparr>gtype = POINTING, confidence = 85/100, gdescription = ''Pointing gesture detected''\<rparr>
        else if isIndexExtended \<and> isMiddleExtended \<and> extendedFingers = 2
        then \<lparr>gtype = PEACE_SIGN, confidence = 8/10, gdescription = ''Peace sign detected''\<rparr>
        else if isThumbExtended \<and> extendedFingers = 1
        then \<lparr>gtype = THUMBS_UP, confidence = 8/10, gdescription = ''Thumbs up detected''\<rparr>
        else if isThumbExtended \<and> isIndexExtended \<and> extendedFingers = 2
        then
          (if hypot (px (lm ! 4) - px (lm ! 8)) (py (lm ! 4) - py (lm ! 8)) < 1/10
           then \<lparr>gtype = OK_SIGN, confidence = 75/100, gdescription = ''OK sign detected''\<rparr>
           else unknown)
        else unknown)"

definition calculateHandSize :: "hand \<Rightarrow> real" where
  "calculateHandSize lm =
     (if length lm < 21 then 0
      else hypot (px (lm ! 12) - px (lm ! 0)) (py (lm ! 12) - py (lm ! 0)))"

definition calculateMovementSpeed :: "hand \<Rightarrow> hand \<Rightarrow> real" where
  \<comment> \<open>The loop runs over the indices below both lengths, which is what \<open>zip\<close> pairs.\<close>
  "calculateMovementSpeed currentLandmarks previousLandmarks =
     (if length currentLandmarks < 21 \<or> length previousLandmarks < 21 then 0
      else
        sum_list (map (\<lambda>(current, previous).
                     hypot (px current - px previous) (py current - py previous))
                   (zip currentLandmarks previousLandmarks))
        / real (length currentLandmarks))"

definition analyzeHandActivity :: "hand \<Rightarrow> hand option \<Rightarrow> landmarks option \<Rightarrow> exn + HandAnalysis" where
  \<comment> \<open>\<open>wrist.x\<close> and \<open>nose.x\<close> throw when the hand is empty or the face has no entry 1.\<close>
  "analyzeHandActivity lm previousLandmarks faceLandmarks =
     (let gesture = recognizeGesture lm;
          handSize = calculateHandSize lm;
          movementSpeed = (case previousLandmarks of
                             None \<Rightarrow> 0
                           | Some previous \<Rightarrow> calculateMovementSpeed lm previous);
          finish = (\<lambda>isNearFace.
            \<lparr>gesture = gesture, isNearFace = isNearFace, handSize = handSize,
             movementSpeed = movementSpeed,
             suspiciousActivity =
               (isNearFace \<or> movementSpeed > 1/10
                \<or> (gtype gesture = POINTING \<and> isNearFace)
                \<or> (gtype gesture = CLOSED_FIST \<and> isNearFace)
                \<or> handSize < 5/100)\<rparr>)
      in
      case faceLandmarks of
        None \<Rightarrow> Inr (finish False)
      | Some face \<Rightarrow>
          if length face > 0 then
            (case lm of
               [] \<Rightarrow> Inl TypeError
             | wrist # _ \<Rightarrow>
                 (case entry face 1 of
                    None \<Rightarrow> Inl TypeError
                  | Some nose \<Rightarrow>
                      Inr (finish (hypot (px wrist - px nose) (py wrist - py nose) < 3/10))))
          else Inr (finish False))"


section \<open>Data model (types, App)\<close>

datatype ExamMode = MCQ | Coding | Written

text \<open>
  The kinds of event are those of \<open>types\<close> and the three hand kinds the later App
  versions log. \<open>ev\_id\<close> and \<open>etype\<close> are the fields \<open>id\<close> and \<open>type\<close> of the
  source.
\<close>

datatype EventType =
    LOOKING_AWAY | FACE_MISSING | MULTIPLE_FACES | TALKING | HAND_ERROR
  | HAND_NEAR_FACE | SUSPICIOUS_HAND_MOVEMENT | SUSPICIOUS_HAND_ACTIVITY

datatype Severity = LOW | MEDIUM | HIGH

record IntegrityEvent =
  ev_id :: string
  timestamp :: int
  etype :: EventType
  severity :: Severity
  description :: string
  screenshotUrl :: "string option"

record DetectionStatus =
  faceDetected :: bool
  handsDetected :: bool
  isTalking :: bool
  isLookingAway :: bool
  multipleFaces :: bool
  handNearFace :: bool

record AppConfig =
  privacyMode :: bool
  invisibleProctor :: bool
  examMode :: ExamMode
  demoMode :: bool
  voiceActivityDetection :: bool

datatype FocusStatus = focused | distracted | idle

text \<open>
  The source holds three versions of the App component: the first and the second one of
  App.tsx and the one of unnamed/part\_004. The first has no voice-activity toggle (its
  \<open>AppConfig\<close> has no such field, so the field of the model is never read there), its own
  hand logic and a remote AI loop; the other two share their frame logic and differ in two
  thresholds and in the study mode of part\_004.
\<close>

datatype version = App_first | App_second | App_part004

definition MAX_SCORE :: real where
  "MAX_SCORE = 100"

definition YAW_THRESHOLD :: "version \<Rightarrow> real" where
  "YAW_THRESHOLD v = (if v = App_part004 then 20/100 else 25/100)"

definition PITCH_THRESHOLD :: real where
  "PITCH_THRESHOLD = 20/100"

definition TALK_THRESHOLD :: "version \<Rightarrow> real" where
  "TALK_THRESHOLD v = (if v = App_part004 then 5/100 else 15/100)"

definition INITIAL_CONFIG :: AppConfig where
  "INITIAL_CONFIG =
     \<lparr>privacyMode = True, invisibleProctor = False, examMode = MCQ, demoMode = False,
      voiceActivityDetection = True\<rparr>"

definition INITIAL_STATUS :: DetectionStatus where
  "INITIAL_STATUS =
     \<lparr>faceDetected = False, handsDetected = False, isTalking = False, isLookingAway = False,
      multipleFaces = False, handNearFace = False\<rparr>"

text \<open>
  What the browser gives one callback: the clock (one reading of \<open>Date.now()\<close> stands for
  all the readings of one synchronous callback), whether the canvas and video elements and
  the two 2D contexts exist, the data URL a snapshot would yield, and the fresh UUID.
  \<open>overlayCtx\<close> is the context of the overlay canvas; \<open>snapshotCtx\<close> is the context of the
  temporary canvas the callback creates (in \<open>captureScreenshot\<close>, and in
  \<open>captureLowResFrame\<close> of the first version).
\<close>

record host =
  now :: int
  canvasRef :: bool
  videoRef :: bool
  overlayCtx :: bool
  snapshotCtx :: bool
  dataURL :: string
  randomUUID :: string

text \<open>
  A memoised callback (\<open>useCallback\<close>) reads the configuration of the render that created
  it. \<open>closure\<close> is what \<open>processFrameRef.current\<close> has captured.
\<close>

record closure =
  c_config :: AppConfig
  c_studyMode :: bool

text \<open>
  The answer of the remote vision model (services/groqService). \<open>analyzeFrameWithPuter\<close>
  catches every error and answers \<open>ERROR\<close> then, so its promise always resolves.
\<close>

datatype AIStatus = SAFE | SUSPICIOUS | ERROR | INIT

record AIAnalysisResult =
  ai_status :: AIStatus
  message :: string
  model :: string

text \<open>
  The state of the component: its React state, its refs, and the requests to the vision
  model that are in flight. The interval callback of the AI loop is suspended at its
  \<open>await\<close> and calls the \<open>logEvent\<close> of the render that created the interval when the
  answer arrives; \<open>aiPending\<close> holds, for every request in flight, the configuration that
  \<open>logEvent\<close> reads.
\<close>

record app_state =
  score :: real
  events :: "IntegrityEvent list"
  status :: DetectionStatus
  config :: AppConfig
  studyMode :: bool
  focusStatus :: FocusStatus
  lastEventTime :: int
  missingFaceStartTime :: "int option"
  lookingAwayStartTime :: "int option"
  talkingStartTime :: "int option"
  latestFaceResults :: "landmarks list option"
  latestHandResults :: "hand list option"
  previousHandLandmarks :: "nat \<Rightarrow> hand option"
  processFrameRef :: closure
  cameraPermission :: bool
  aiPending :: "AppConfig list"

definition unset :: "int option \<Rightarrow> bool" where
  \<comment> \<open>\<open>!ref.current\<close> for a \<open>number | null\<close>: true for \<open>null\<close> and for 0.\<close>
  "unset t = (t = None \<or> t = Some 0)"


section \<open>Events (App: captureScreenshot, logEvent)\<close>

definition captureScreenshot :: "AppConfig \<Rightarrow> host \<Rightarrow> string option" where
  "captureScreenshot cfg h =
     (if \<not> privacyMode cfg then None
      else if canvasRef h \<and> videoRef h then
        (if snapshotCtx h then Some (dataURL h) else None)
      else None)"

definition logEvent ::
  "AppConfig \<Rightarrow> host \<Rightarrow> EventType \<Rightarrow> Severity \<Rightarrow> string \<Rightarrow> app_state \<Rightarrow> app_state" where
  "logEvent cfg h ty sev descr st =
     (if now h - lastEventTime st < 2000 then st
      else
        let newEvent = \<lparr>ev_id = randomUUID h, timestamp = now h, etype = ty, severity = sev,
                         description = descr, screenshotUrl = captureScreenshot cfg h\<rparr>
        in st\<lparr>lastEventTime := now h, events := events st @ [newEvent]\<rparr>)"

definition captureLowResFrame :: "host \<Rightarrow> bool" where
  \<comment> \<open>Whether the first version's \<open>captureLowResFrame\<close> yields a frame (a data URL, which
      is never the empty string) rather than \<open>undefined\<close>.\<close>
  "captureLowResFrame h = (if \<not> videoRef h then False else if snapshotCtx h then True else False)"


section \<open>Frame processing (App: processFrame)\<close>

definition scoreUpdate :: "ExamMode \<Rightarrow> real \<Rightarrow> real \<Rightarrow> real" where
  \<comment> \<open>The updater passed to \<open>setScore\<close> at the end of \<open>processFrame\<close>.\<close>
  "scoreUpdate mode deduction prev =
     (let recovery = (if deduction > 0 then 0 else 5/100);
          multiplier = (if mode = Written then 8/10 else if mode = Coding then 12/10 else 1)
      in max 0 (min 100 (prev - (deduction * multiplier) + recovery)))"

text \<open>
  Each block of \<open>processFrame\<close> returns its status flag, what it adds to \<open>deduction\<close>
  and the state it leaves.
\<close>

definition multipleFacesBlock ::
  "AppConfig \<Rightarrow> host \<Rightarrow> landmarks list \<Rightarrow> app_state \<Rightarrow> bool \<times> real \<times> app_state" where
  "multipleFacesBlock cfg h faces st =
     (if length faces > 1
      then (True, 5, logEvent cfg h MULTIPLE_FACES HIGH ''Multiple people detected.'' st)
      else (False, 0, st))"

definition lookingAway :: "version \<Rightarrow> AppConfig \<Rightarrow> jsnum \<Rightarrow> jsnum \<Rightarrow> bool" where
  "lookingAway v cfg yaw pitch =
     (let maxLookDown = (if examMode cfg = Written then 8/10 else PITCH_THRESHOLD)
      in js_gt (js_abs yaw) (YAW_THRESHOLD v) \<or> js_lt pitch (- PITCH_THRESHOLD)
         \<or> js_gt pitch maxLookDown)"

definition lookDirection :: "jsnum \<Rightarrow> jsnum \<Rightarrow> string" where
  "lookDirection yaw pitch =
     (if js_gt yaw 0 then ''Right'' else if js_lt yaw 0 then ''Left''
      else if js_gt pitch 0 then ''Down'' else ''Up'')"

definition headPoseBlock ::
  "version \<Rightarrow> AppConfig \<Rightarrow> host \<Rightarrow> landmarks \<Rightarrow> app_state \<Rightarrow> bool \<times> real \<times> app_state" where
  "headPoseBlock v cfg h lm st =
     (case calculateHeadPose lm of (yaw, pitch) \<Rightarrow>
        if lookingAway v cfg yaw pitch then
          (if unset (lookingAwayStartTime st)
           then (True, 0, st\<lparr>lookingAwayStartTime := Some (now h)\<rparr>)
           else if now h - the (lookingAwayStartTime st) > 2000 then
             (True, 1/10,
              if now h - lastEventTime st > 5000
              then logEvent cfg h LOOKING_AWAY MEDIUM
                     (''Looking '' @ lookDirection yaw pitch @ '' detected.'') st
              else st)
           else (True, 0, st))
        else (False, 0, st\<lparr>lookingAwayStartTime := None\<rparr>))"

definition talkingCondition :: "version \<Rightarrow> AppConfig \<Rightarrow> landmarks \<Rightarrow> bool" where
  \<comment> \<open>\<open>mouthOpen > TALK_THRESHOLD\<close>, and from the second version on
      \<open>&& config.voiceActivityDetection\<close>.\<close>
  "talkingCondition v cfg lm =
     (if v = App_first then js_gt (calculateMouthOpenness lm) (TALK_THRESHOLD v)
      else js_gt (calculateMouthOpenness lm) (TALK_THRESHOLD v) \<and> voiceActivityDetection cfg)"

definition talkingBlock ::
  "bool \<Rightarrow> AppConfig \<Rightarrow> host \<Rightarrow> app_state \<Rightarrow> bool \<times> real \<times> app_state" where
  "talkingBlock talking cfg h st =
     (if talking then
        (if unset (talkingStartTime st)
         then (True, 0, st\<lparr>talkingStartTime := Some (now h)\<rparr>)
         else if now h - the (talkingStartTime st) > 1500 then
           (True, 2/10,
            if now h - lastEventTime st > 4000
            then logEvent cfg h TALKING MEDIUM ''Sustained mouth movement detected.'' st
            else st)
         else (True, 0, st))
      else (False, 0, st\<lparr>talkingStartTime := None\<rparr>))"

definition noFaceBlock :: "AppConfig \<Rightarrow> host \<Rightarrow> app_state \<Rightarrow> real \<times> app_state" where
  "noFaceBlock cfg h st =
     (if unset (missingFaceStartTime st)
      then (0, st\<lparr>missingFaceStartTime := Some (now h)\<rparr>)
      else if now h - the (missingFaceStartTime st) > 3000 then
        (5/10,
         if now h - lastEventTime st > 5000
         then logEvent cfg h FACE_MISSING HIGH ''Face not visible for > 3 seconds.'' st
         else st)
      else (0, st))"

definition firstFace :: "app_state \<Rightarrow> landmarks option" where
  \<comment> \<open>\<open>faceResults?.multiFaceLandmarks?.[0] || null\<close>\<close>
  "firstFace st = (case latestFaceResults st of Some (lm # others) \<Rightarrow> Some lm | _ \<Rightarrow> None)"

definition faceLogic ::
  "version \<Rightarrow> AppConfig \<Rightarrow> host \<Rightarrow> app_state \<Rightarrow> DetectionStatus \<times> real \<times> app_state" where
  "faceLogic v cfg h st =
     (case latestFaceResults st of
        Some (lm # others) \<Rightarrow>
          (case multipleFacesBlock cfg h (lm # others) st of (multi, d1, st1) \<Rightarrow>
           case headPoseBlock v cfg h lm st1 of (away, d2, st2) \<Rightarrow>
           case talkingBlock (talkingCondition v cfg lm) cfg h st2 of (talking, d3, st3) \<Rightarrow>
             (INITIAL_STATUS\<lparr>faceDetected := True, multipleFaces := multi,
                             isLookingAway := away, isTalking := talking\<rparr>,
              d1 + d2 + d3,
              st3\<lparr>missingFaceStartTime := None\<rparr>))
      | _ \<Rightarrow>
          (case noFaceBlock cfg h st of (d, st1) \<Rightarrow> (INITIAL_STATUS, d, st1)))"

fun handNear_first :: "landmarks \<Rightarrow> hand list \<Rightarrow> exn + bool" where
  \<comment> \<open>The hand loop of the first version: no check of the number of points.\<close>
  "handNear_first face [] = Inr False"
| "handNear_first face (lm # rest) =
     (case calculateHandFaceDistance lm face of
        Inl e \<Rightarrow> Inl e
      | Inr distance \<Rightarrow>
          (case handNear_first face rest of
             Inl e \<Rightarrow> Inl e
           | Inr near \<Rightarrow> Inr (distance < 3/10 \<or> near)))"

definition handStep ::
  "AppConfig \<Rightarrow> host \<Rightarrow> nat \<Rightarrow> hand \<Rightarrow> HandAnalysis \<Rightarrow> bool \<times> real \<times> app_state
     \<Rightarrow> bool \<times> real \<times> app_state" where
  \<comment> \<open>The body of the enhanced hand loop after \<open>analyzeHandActivity\<close> (drawing left out).\<close>
  "handStep cfg h handIndex lm ha acc =
     (case acc of (near, d, st) \<Rightarrow>
        let st1 =
              (if suspiciousActivity ha \<and> now h - lastEventTime st > 3000 then
                 (if isNearFace ha
                  then logEvent cfg h HAND_NEAR_FACE HIGH
                         (''Hand near face detected: '' @ gdescription (gesture ha)) st
                  else if movementSpeed ha > 1/10
                  then logEvent cfg h SUSPICIOUS_HAND_MOVEMENT MEDIUM
                         (''Rapid hand movement: '' @ gdescription (gesture ha)) st
                  else logEvent cfg h SUSPICIOUS_HAND_ACTIVITY MEDIUM
                         (''Suspicious hand activity: '' @ gdescription (gesture ha)) st)
               else st)
        in (near \<or> isNearFace ha,
            (if suspiciousActivity ha then d + 3/10 else d),
            st1\<lparr>previousHandLandmarks := (previousHandLandmarks st1)(handIndex \<mapsto> lm)\<rparr>))"

fun handLoop ::
  "AppConfig \<Rightarrow> host \<Rightarrow> landmarks option \<Rightarrow> nat \<Rightarrow> hand list \<Rightarrow> bool \<times> real \<times> app_state
     \<Rightarrow> (exn \<times> app_state) + (bool \<times> real \<times> app_state)" where
  \<comment> \<open>The enhanced hand loop (second version and part\_004): a hand with fewer than 21 points
      is skipped by \<open>continue\<close>. An exception leaves the state reached so far.\<close>
  "handLoop cfg h face handIndex [] acc = Inr acc"
| "handLoop cfg h face handIndex (lm # rest) acc =
     (if length lm < 21 then handLoop cfg h face (Suc handIndex) rest acc
      else
        (case analyzeHandActivity lm (previousHandLandmarks (snd (snd acc)) handIndex) face of
           Inl e \<Rightarrow> Inl (e, snd (snd acc))
         | Inr ha \<Rightarrow> handLoop cfg h face (Suc handIndex) rest (handStep cfg h handIndex lm ha acc)))"

definition handLogic ::
  "version \<Rightarrow> AppConfig \<Rightarrow> host \<Rightarrow> app_state
     \<Rightarrow> (exn \<times> app_state) + (bool \<times> bool \<times> real \<times> app_state)" where
  \<comment> \<open>Returns \<open>handsDetected\<close>, \<open>handNearFace\<close>, the deduction of the hands and the state.\<close>
  "handLogic v cfg h st =
     (case latestHandResults st of
        Some (lm # others) \<Rightarrow>
          if v = App_first then
            (case firstFace st of
               None \<Rightarrow> Inr (True, False, 0, st)
             | Some face \<Rightarrow>
                 (case handNear_first face (lm # others) of
                    Inl e \<Rightarrow> Inl (e, st)
                  | Inr near \<Rightarrow> Inr (True, near, 0, st)))
          else
            (case handLoop cfg h (firstFace st) 0 (lm # others) (False, 0, st) of
               Inl x \<Rightarrow> Inl x
             | Inr (near, d, st1) \<Rightarrow> Inr (True, near, d, st1))
      | _ \<Rightarrow> Inr (False, False, 0, st))"

definition analyseFrame ::
  "version \<Rightarrow> AppConfig \<Rightarrow> host \<Rightarrow> app_state
     \<Rightarrow> (exn \<times> app_state) + (DetectionStatus \<times> real \<times> app_state)" where
  \<comment> \<open>Face logic, then hand logic: \<open>currentStatus\<close>, \<open>deduction\<close> and the state, or the
      exception that ended the callback.\<close>
  "analyseFrame v cfg h st =
     (case faceLogic v cfg h st of (status1, d1, st1) \<Rightarrow>
        (case handLogic v cfg h st1 of
           Inl x \<Rightarrow> Inl x
         | Inr (hands, near, d2, st2) \<Rightarrow>
             Inr (status1\<lparr>handsDetected := hands, handNearFace := near\<rparr>, d1 + d2, st2)))"

definition updateFocusStatus :: "DetectionStatus \<Rightarrow> app_state \<Rightarrow> app_state" where
  "updateFocusStatus currentStatus st =
     (if \<not> faceDetected currentStatus then st\<lparr>focusStatus := idle\<rparr>
      else if isLookingAway currentStatus \<or> isTalking currentStatus \<or> handNearFace currentStatus
      then st\<lparr>focusStatus := distracted\<rparr>
      else st\<lparr>focusStatus := focused\<rparr>)"

definition processFrame ::
  "version \<Rightarrow> closure \<Rightarrow> host \<Rightarrow> app_state \<Rightarrow> exn option \<times> app_state" where
  \<comment> \<open>The first component is the exception thrown out of the callback, if any; then
      \<open>setStatus\<close> and \<open>setScore\<close> were not reached.\<close>
  "processFrame v cl h st =
     (if \<not> canvasRef h \<or> \<not> videoRef h then (None, st)
      else if \<not> overlayCtx h then (None, st)
      else
        (case analyseFrame v (c_config cl) h st of
           Inl (e, st1) \<Rightarrow> (Some e, st1)
         | Inr (currentStatus, deduction, st1) \<Rightarrow>
             let st2 = st1\<lparr>status := currentStatus\<rparr>;
                 st3 = (if v = App_part004 \<and> c_studyMode cl
                        then updateFocusStatus currentStatus st2 else st2)
             in (None, st3\<lparr>score := scoreUpdate (examMode (c_config cl)) deduction (score st3)\<rparr>)))"


definition frameDeduction :: "version \<Rightarrow> AppConfig \<Rightarrow> host \<Rightarrow> app_state \<Rightarrow> real option" where
  \<comment> \<open>The value of \<open>deduction\<close> with which a frame reaches \<open>setScore\<close>; \<open>None\<close> when the
      callback returns early or throws.\<close>
  "frameDeduction v cfg h st =
     (if canvasRef h \<and> videoRef h \<and> overlayCtx h then
        (case analyseFrame v cfg h st of
           Inl x \<Rightarrow> None
         | Inr (currentStatus, deduction, st1) \<Rightarrow> Some deduction)
      else None)"

definition frameStatus :: "version \<Rightarrow> AppConfig \<Rightarrow> host \<Rightarrow> app_state \<Rightarrow> DetectionStatus option" where
  \<comment> \<open>The \<open>currentStatus\<close> with which a frame reaches \<open>setStatus\<close>.\<close>
  "frameStatus v cfg h st =
     (if canvasRef h \<and> videoRef h \<and> overlayCtx h then
        (case analyseFrame v cfg h st of
           Inl x \<Rightarrow> None
         | Inr (currentStatus, deduction, st1) \<Rightarrow> Some currentStatus)
      else None)"


section \<open>The component as a state machine\<close>

text \<open>
  \<open>useCallback(f, deps)\<close> keeps the callback of an earlier render as long as the
  dependencies are unchanged. The dependency lists are those of the source; a memoised
  callback that is itself a dependency changes exactly when its own dependencies do.
\<close>

definition captureScreenshot_deps :: "AppConfig \<Rightarrow> bool" where
  "captureScreenshot_deps cfg = privacyMode cfg"

definition logEvent_deps :: "AppConfig \<Rightarrow> bool \<times> bool" where
  "logEvent_deps cfg = (invisibleProctor cfg, captureScreenshot_deps cfg)"

definition processFrame_deps ::
  "version \<Rightarrow> closure \<Rightarrow> ExamMode \<times> bool \<times> (bool \<times> bool) \<times> bool \<times> bool" where
  \<comment> \<open>\<open>[config.examMode, config.invisibleProctor, logEvent, config.privacyMode]\<close>, and
      \<open>studyMode\<close> in part\_004 (\<open>updateFocusStatus\<close> never changes).\<close>
  "processFrame_deps v cl =
     (examMode (c_config cl), invisibleProctor (c_config cl), logEvent_deps (c_config cl),
      privacyMode (c_config cl), (if v = App_part004 then c_studyMode cl else False))"

definition rerender :: "version \<Rightarrow> app_state \<Rightarrow> app_state" where
  \<comment> \<open>A render after a change of state, and the effect that stores the callback in
      \<open>processFrameRef\<close> when the callback has changed.\<close>
  "rerender v st =
     (let fresh = \<lparr>c_config = config st, c_studyMode = studyMode st\<rparr>
      in if processFrame_deps v fresh = processFrame_deps v (processFrameRef st) then st
         else st\<lparr>processFrameRef := fresh\<rparr>)"

datatype config_change =
    SetExamMode ExamMode
  | TogglePrivacyMode
  | ToggleVoiceActivityDetection
  | ToggleInvisibleProctor
  | ToggleDemoMode

fun applyChange :: "config_change \<Rightarrow> AppConfig \<Rightarrow> AppConfig" where
  \<comment> \<open>The updaters the control panel passes to \<open>setConfig\<close>.\<close>
  "applyChange (SetExamMode m) prev = prev\<lparr>examMode := m\<rparr>"
| "applyChange TogglePrivacyMode prev = prev\<lparr>privacyMode := \<not> privacyMode prev\<rparr>"
| "applyChange ToggleVoiceActivityDetection prev =
     prev\<lparr>voiceActivityDetection := \<not> voiceActivityDetection prev\<rparr>"
| "applyChange ToggleInvisibleProctor prev = prev\<lparr>invisibleProctor := \<not> invisibleProctor prev\<rparr>"
| "applyChange ToggleDemoMode prev = prev\<lparr>demoMode := \<not> demoMode prev\<rparr>"

text \<open>
  The callbacks of the component. \<open>FaceResults\<close> and \<open>HandResults\<close> are the \<open>onResults\<close>
  callbacks of the two detectors: each stores its results and calls
  \<open>processFrameRef.current\<close>. \<open>DemoTick\<close> is the callback of the demo interval, which
  exists while \<open>demoMode\<close> is set. The AI loop is in the first version only: its interval
  exists while \<open>demoMode\<close> is off and the camera has started. Both intervals are created
  anew whenever \<open>logEvent\<close> changes, that is whenever \<open>privacyMode\<close> or
  \<open>invisibleProctor\<close> does, so when an interval fires its \<open>logEvent\<close> agrees with the
  current configuration on all that \<open>logEvent\<close> and \<open>captureScreenshot\<close> read.
  \<open>AiTick\<close> is the callback of the AI interval up to its \<open>await\<close>: it sends a request if
  \<open>captureLowResFrame\<close> yields a frame. \<open>AiResult n\<close> is the rest of that callback for the
  \<open>n\<close>-th request in flight (answers may arrive in any order, and also after the interval
  was cleared): it logs with the \<open>logEvent\<close> of the render in which the request was sent,
  whatever the configuration has become. \<open>setIsAiAnalyzing\<close> and \<open>setAiResult\<close> only feed
  the display and are left out.
\<close>

datatype action =
    FaceResults "landmarks list option" host
  | HandResults "hand list option" host
  | SetConfig config_change
  | SetStudyMode bool
  | DemoTick real host
  | DemoStatusReset
  | SetCameraPermission bool
  | AiTick host
  | AiResult nat AIAnalysisResult host

fun step :: "version \<Rightarrow> app_state \<Rightarrow> action \<Rightarrow> app_state" where
  "step v st (FaceResults results h) =
     snd (processFrame v (processFrameRef st) h (st\<lparr>latestFaceResults := results\<rparr>))"
| "step v st (HandResults results h) =
     snd (processFrame v (processFrameRef st) h (st\<lparr>latestHandResults := results\<rparr>))"
| "step v st (SetConfig c) = rerender v (st\<lparr>config := applyChange c (config st)\<rparr>)"
| "step v st (SetStudyMode b) = rerender v (st\<lparr>studyMode := b\<rparr>)"
| "step v st (DemoTick random h) =
     (if demoMode (config st) \<and> random > 95/100 then
        (let st1 = logEvent (config st) h LOOKING_AWAY LOW ''Simulated: Gaze drift detected'' st
         in st1\<lparr>score := max 0 (score st1 - 5),
                status := (status st1)\<lparr>isLookingAway := True\<rparr>\<rparr>)
      else st)"
| "step v st DemoStatusReset = st\<lparr>status := (status st)\<lparr>isLookingAway := False\<rparr>\<rparr>"
| "step v st (SetCameraPermission b) = rerender v (st\<lparr>cameraPermission := b\<rparr>)"
| "step v st (AiTick h) =
     (if v = App_first \<and> \<not> demoMode (config st) \<and> cameraPermission st then
        (if captureLowResFrame h then st\<lparr>aiPending := aiPending st @ [config st]\<rparr> else st)
      else st)"
| "step v st (AiResult n result h) =
     (if n < length (aiPending st) then
        (let cfg = aiPending st ! n;
             st0 = st\<lparr>aiPending := take n (aiPending st) @ drop (Suc n) (aiPending st)\<rparr>
         in if ai_status result = SUSPICIOUS then
              (let st1 = logEvent cfg h LOOKING_AWAY HIGH (''AI Flag: '' @ message result) st0
               in st1\<lparr>score := max 0 (score st1 - 5)\<rparr>)
            else st0)
      else st)"



definition run :: "version \<Rightarrow> app_state \<Rightarrow> action list \<Rightarrow> app_state" where
  "run v st actions = foldl (step v) st actions"

definition INITIAL_STATE :: app_state where
  "INITIAL_STATE =
     \<lparr>score = 100, events = [], status = INITIAL_STATUS, config = INITIAL_CONFIG,
      studyMode = False, focusStatus = idle, lastEventTime = 0,
      missingFaceStartTime = None, lookingAwayStartTime = None, talkingStartTime = None,
      latestFaceResults = None, latestHandResults = None,
      previousHandLandmarks = (\<lambda>i. None),
      processFrameRef = \<lparr>c_config = INITIAL_CONFIG, c_studyMode = False\<rparr>,
      cameraPermission = False, aiPending = []\<rparr>"


section \<open>The specification's score rule\<close>

text \<open>
  The rule in the specification's words: the net delta, recovery minus deduction, is
  scaled by the exam-mode multiplier and added to the previous score, then clamped.
  These definitions follow the specification; \<open>scoreUpdate\<close> is the source's.
\<close>

definition spec_multiplier :: "ExamMode \<Rightarrow> real" where
  "spec_multiplier mode = (case mode of Coding \<Rightarrow> 12/10 | Written \<Rightarrow> 8/10 | MCQ \<Rightarrow> 1)"

definition spec_scoreUpdate :: "ExamMode \<Rightarrow> real \<Rightarrow> real \<Rightarrow> real \<Rightarrow> real" where
  "spec_scoreUpdate mode s d r = max 0 (min 100 (s + (r - d) * spec_multiplier mode))"

definition recoveryOf :: "real \<Rightarrow> real" where
  \<comment> \<open>The recovery of a frame whose total deduction is \<open>d\<close>.\<close>
  "recoveryOf d = (if d > 0 then 0 else 5/100)"


section \<open>Invariants\<close>

definition log_ok :: "app_state \<Rightarrow> bool" where
  \<comment> \<open>The log is in time order, \<open>lastEventTime\<close> is not before any logged event, and it
      is the time of the last logged event once there is one.\<close>
  "log_ok st =
     (sorted (map timestamp (events st))
      \<and> list_all (\<lambda>e. timestamp e \<le> lastEventTime st) (events st)
      \<and> (events st = [] \<or> lastEventTime st = timestamp (last (events st))))"

definition frame_rel :: "AppConfig \<Rightarrow> host \<Rightarrow> app_state \<Rightarrow> app_state \<Rightarrow> bool" where
  \<comment> \<open>What the analysis of a frame with configuration \<open>cfg\<close> and host \<open>h\<close> may change:
      the timers and the stored hands freely, the log by appending events made at
      \<open>now h\<close> with the snapshot of \<open>cfg\<close>.\<close>
  "frame_rel cfg h st st' =
     (score st' = score st \<and> config st' = config st \<and> studyMode st' = studyMode st
      \<and> processFrameRef st' = processFrameRef st \<and> status st' = status st
      \<and> focusStatus st' = focusStatus st
      \<and> latestFaceResults st' = latestFaceResults st
      \<and> latestHandResults st' = latestHandResults st
      \<and> cameraPermission st' = cameraPermission st \<and> aiPending st' = aiPending st
      \<and> (\<exists>new. events st' = events st @ new
             \<and> list_all (\<lambda>e. timestamp e = now h
                               \<and> screenshotUrl e = captureScreenshot cfg h) new)
      \<and> lastEventTime st \<le> lastEventTime st'
      \<and> (if log_ok st then log_ok st' else True))"

definition score_ok :: "app_state \<Rightarrow> bool" where
  \<comment> \<open>The score is within its bounds.\<close>
  "score_ok st = (0 \<le> score st \<and> score st \<le> 100)"

definition closure_ok :: "version \<Rightarrow> app_state \<Rightarrow> bool" where
  \<comment> \<open>The callback held in \<open>processFrameRef\<close> agrees with the current configuration on
      everything its dependency list names.\<close>
  "closure_ok v st =
     (examMode (c_config (processFrameRef st)) = examMode (config st)
      \<and> privacyMode (c_config (processFrameRef st)) = privacyMode (config st)
      \<and> invisibleProctor (c_config (processFrameRef st)) = invisibleProctor (config st)
      \<and> (if v = App_part004 then c_studyMode (processFrameRef st) = studyMode st else True))"

definition reachable_ok :: "version \<Rightarrow> app_state \<Rightarrow> bool" where
  \<comment> \<open>The invariant of the state machine.\<close>
  "reachable_ok v st = (score_ok st \<and> log_ok st \<and> closure_ok v st)"


definition appends :: "(IntegrityEvent \<Rightarrow> bool) \<Rightarrow> app_state \<Rightarrow> app_state \<Rightarrow> bool" where
  \<comment> \<open>The log of \<open>st'\<close> is the log of \<open>st\<close> followed by events that all satisfy \<open>P\<close>.\<close>
  "appends P st st' = (\<exists>new. events st' = events st @ new \<and> list_all P new)"

definition handEvent :: "IntegrityEvent \<Rightarrow> bool" where
  \<comment> \<open>The kinds of event the hand logic logs.\<close>
  "handEvent e =
     (etype e = HAND_NEAR_FACE \<or> etype e = SUSPICIOUS_HAND_MOVEMENT
      \<or> etype e = SUSPICIOUS_HAND_ACTIVITY)"

definition awaySustained ::
  "version \<Rightarrow> AppConfig \<Rightarrow> host \<Rightarrow> landmarks \<Rightarrow> app_state \<Rightarrow> bool" where
  \<comment> \<open>The face looks away and has done so for more than 2000 ms.\<close>
  "awaySustained v cfg h lm st =
     ((case calculateHeadPose lm of (yaw, pitch) \<Rightarrow> lookingAway v cfg yaw pitch)
      \<and> (case lookingAwayStartTime st of None \<Rightarrow> False
          | Some t0 \<Rightarrow> t0 \<noteq> 0 \<and> now h - t0 > 2000))"

definition talkSustained :: "bool \<Rightarrow> host \<Rightarrow> app_state \<Rightarrow> bool" where
  \<comment> \<open>The talking test holds and has done so for more than 1500 ms.\<close>
  "talkSustained talking h st =
     (talking
      \<and> (case talkingStartTime st of None \<Rightarrow> False
          | Some t0 \<Rightarrow> t0 \<noteq> 0 \<and> now h - t0 > 1500))"

definition frameEvent ::
  "version \<Rightarrow> AppConfig \<Rightarrow> host \<Rightarrow> app_state \<Rightarrow> IntegrityEvent \<Rightarrow> bool" where
  \<comment> \<open>What holds of every event a frame logs from state \<open>st\<close>: a LOOKING\_AWAY event needs
      the sustained looking away of the first face, a TALKING event its sustained talking.\<close>
  "frameEvent v cfg h st e =
     ((if etype e = LOOKING_AWAY
       then (case firstFace st of None \<Rightarrow> False | Some lm \<Rightarrow> awaySustained v cfg h lm st)
       else True)
      \<and> (if etype e = TALKING
          then (case firstFace st of None \<Rightarrow> False
                | Some lm \<Rightarrow> talkSustained (talkingCondition v cfg lm) h st)
          else True))"





definition away_recent :: "int \<Rightarrow> app_state \<Rightarrow> bool" where
  \<comment> \<open>The looking-away condition does not hold yet, or holds since a time from \<open>T\<close> on.\<close>
  "away_recent T st =
     (case lookingAwayStartTime st of None \<Rightarrow> True | Some t0 \<Rightarrow> t0 = 0 \<or> T \<le> t0)"


section \<open>Sample inputs\<close>

definition browser :: "int \<Rightarrow> host" where
  \<comment> \<open>A page whose elements and contexts all exist, at time \<open>t\<close>.\<close>
  "browser t =
     \<lparr>now = t, canvasRef = True, videoRef = True, overlayCtx = True, snapshotCtx = True,
      dataURL = ''data:image/jpeg;base64,AAAA'',
      randomUUID = ''123e4567-e89b-42d3-a456-426614174000''\<rparr>"

definition pt :: "real \<Rightarrow> real \<Rightarrow> point" where
  "pt a b = \<lparr>px = a, py = b\<rparr>"

definition faceWith :: "point \<Rightarrow> point \<Rightarrow> point \<Rightarrow> landmarks" where
  \<comment> \<open>A face of 468 landmarks: cheeks at x = 0.4 and 0.6, forehead at y = 0.2, chin at
      y = 0.8, and the given nose tip and inner lips.\<close>
  "faceWith noseTip upperLip lowerLip =
     (replicate 468 (Some (pt (1/2) (1/2))))
       [1 := Some noseTip, 234 := Some (pt (4/10) (1/2)), 454 := Some (pt (6/10) (1/2)),
        152 := Some (pt (1/2) (8/10)), 10 := Some (pt (1/2) (2/10)),
        13 := Some upperLip, 14 := Some lowerLip]"

definition face_yaw30 :: landmarks where
  \<comment> \<open>Head turned: yaw = 0.06 / 0.2 = 0.30, pitch 0, mouth closed.\<close>
  "face_yaw30 = faceWith (pt (56/100) (1/2)) (pt (1/2) (6/10)) (pt (1/2) (6/10))"

definition face_talking :: landmarks where
  \<comment> \<open>Looking straight, mouth open: 0.1 / 0.6 of the face height.\<close>
  "face_talking = faceWith (pt (1/2) (1/2)) (pt (1/2) (55/100)) (pt (1/2) (65/100))"

definition missing_face_frames :: "action list" where
  \<comment> \<open>Three face callbacks without a face, at 10 s, 14 s and 20 s.\<close>
  "missing_face_frames =
     [FaceResults None (browser 10000), FaceResults None (browser 14000),
      FaceResults None (browser 20000)]"



definition half_score :: app_state where
  \<comment> \<open>The initial state with the score at 50.\<close>
  "half_score = INITIAL_STATE\<lparr>score := 50\<rparr>"

definition face_missing_4s :: app_state where
  \<comment> \<open>Score 50, and the face missing since 10 s.\<close>
  "face_missing_4s = INITIAL_STATE\<lparr>score := 50, missingFaceStartTime := Some 10000\<rparr>"

definition hand5 :: hand where
  \<comment> \<open>A hand landmark set of five points.\<close>
  "hand5 = replicate 5 (pt (1/2) (1/2))"


definition face_without_lip :: landmarks where
  \<comment> \<open>The turned head, its upper inner lip (13) missing.\<close>
  "face_without_lip = face_yaw30[13 := None]"

definition face_300 :: landmarks where
  \<comment> \<open>The first 300 landmarks of the open-mouthed face: the right cheek (454) is missing.\<close>
  "face_300 = take 300 face_talking"

definition face_10 :: landmarks where
  \<comment> \<open>The first ten landmarks of a face: only the nose tip of the landmarks read is there.\<close>
  "face_10 = take 10 face_talking"





definition two_faces :: app_state where
  \<comment> \<open>The initial state with two faces as the latest face result.\<close>
  "two_faces = INITIAL_STATE\<lparr>latestFaceResults := Some [face_talking, face_talking]\<rparr>"

definition two_faces_hand5 :: app_state where
  \<comment> \<open>The same, with one hand of five points as the latest hand result.\<close>
  "two_faces_hand5 = two_faces\<lparr>latestHandResults := Some [hand5]\<rparr>"

definition talking_after_toggle :: "action list" where
  \<comment> \<open>The user switches voice-activity detection off; then two face callbacks, 1.6 s
      apart, show an open mouth.\<close>
  "talking_after_toggle =
     [SetConfig ToggleVoiceActivityDetection,
      FaceResults (Some [face_talking]) (browser 10000),
      FaceResults (Some [face_talking]) (browser 11600)]"

definition talking_after_two_changes :: "action list" where
  \<comment> \<open>The same, the user also changing the exam mode before the frames.\<close>
  "talking_after_two_changes =
     [SetConfig ToggleVoiceActivityDetection, SetConfig (SetExamMode Coding),
      FaceResults (Some [face_talking]) (browser 10000),
      FaceResults (Some [face_talking]) (browser 11600)]"










section \<open>What the analysis of a frame preserves\<close>

lemma frame_rel_refl [simp]: "frame_rel cfg h st st"
  by (simp add: frame_rel_def)

lemma frame_rel_trans: "frame_rel cfg h a b \<Longrightarrow> frame_rel cfg h b c \<Longrightarrow> frame_rel cfg h a c"
  by (auto simp: frame_rel_def split: if_splits)

lemma log_ok_logEvent: "log_ok st \<Longrightarrow> log_ok (logEvent cfg h ty sev descr st)"
  by (auto simp: log_ok_def logEvent_def Let_def sorted_append list_all_iff)

lemma frame_rel_logEvent [simp]: "frame_rel cfg h st (logEvent cfg h ty sev descr st)"
  using log_ok_logEvent [of st cfg h ty sev descr]
  by (auto simp: frame_rel_def logEvent_def Let_def)

lemma frame_rel_timers [simp]:
  "frame_rel cfg h st (st'\<lparr>lookingAwayStartTime := a\<rparr>) = frame_rel cfg h st st'"
  "frame_rel cfg h st (st'\<lparr>talkingStartTime := a\<rparr>) = frame_rel cfg h st st'"
  "frame_rel cfg h st (st'\<lparr>missingFaceStartTime := a\<rparr>) = frame_rel cfg h st st'"
  "frame_rel cfg h st (st'\<lparr>previousHandLandmarks := f\<rparr>) = frame_rel cfg h st st'"
  by (auto simp add: frame_rel_def log_ok_def)

lemma frame_rel_multipleFacesBlock:
  "frame_rel cfg h st (snd (snd (multipleFacesBlock cfg h faces st)))"
  by (simp add: multipleFacesBlock_def)

lemma frame_rel_headPoseBlock:
  "frame_rel cfg h st (snd (snd (headPoseBlock v cfg h lm st)))"
  by (simp add: headPoseBlock_def split: prod.split)

lemma frame_rel_talkingBlock:
  "frame_rel cfg h st (snd (snd (talkingBlock talking cfg h st)))"
  by (simp add: talkingBlock_def)

lemma frame_rel_noFaceBlock:
  "frame_rel cfg h st (snd (noFaceBlock cfg h st))"
  by (simp add: noFaceBlock_def)

lemma frame_rel_faceLogic:
  "frame_rel cfg h st (snd (snd (faceLogic v cfg h st)))"
proof (cases "latestFaceResults st")
  case None
  then show ?thesis
    using frame_rel_noFaceBlock [where st = st and cfg = cfg and h = h]
    by (simp add: faceLogic_def split: prod.split)
next
  case (Some faces)
  show ?thesis
  proof (cases faces)
    case Nil
    with Some show ?thesis
      using frame_rel_noFaceBlock [where st = st and cfg = cfg and h = h]
      by (simp add: faceLogic_def split: prod.split)
  next
    case (Cons lm others)
    obtain multi d1 st1 where m: "multipleFacesBlock cfg h (lm # others) st = (multi, d1, st1)"
      by (cases "multipleFacesBlock cfg h (lm # others) st") auto
    obtain away d2 st2 where a: "headPoseBlock v cfg h lm st1 = (away, d2, st2)"
      by (cases "headPoseBlock v cfg h lm st1") auto
    obtain talking d3 st3 where t: "talkingBlock (talkingCondition v cfg lm) cfg h st2 = (talking, d3, st3)"
      by (cases "talkingBlock (talkingCondition v cfg lm) cfg h st2") auto
    have r1: "frame_rel cfg h st st1"
      using frame_rel_multipleFacesBlock [where st = st and cfg = cfg and h = h
          and faces = "lm # others"] m
      by simp
    have r2: "frame_rel cfg h st1 st2"
      using frame_rel_headPoseBlock [where st = st1 and v = v and cfg = cfg and h = h
          and lm = lm] a
      by simp
    have r3: "frame_rel cfg h st2 st3"
      using frame_rel_talkingBlock [where st = st2 and talking = "talkingCondition v cfg lm"
          and cfg = cfg and h = h] t
      by simp
    have "frame_rel cfg h st st3" using r1 r2 r3 by (blast intro: frame_rel_trans)
    then show ?thesis using Some Cons m a t by (simp add: faceLogic_def)
  qed
qed

lemma frame_rel_handStep:
  "frame_rel cfg h st (snd (snd (handStep cfg h i lm ha (near, d, st))))"
  by (simp add: handStep_def Let_def)

lemma frame_rel_handLoop:
  "frame_rel cfg h st0 (snd (snd acc)) \<Longrightarrow>
   (case handLoop cfg h face i hands acc of
      Inl (e, st1) \<Rightarrow> frame_rel cfg h st0 st1
    | Inr (near, d, st1) \<Rightarrow> frame_rel cfg h st0 st1)"
proof (induction hands arbitrary: i acc)
  case Nil
  then show ?case by (auto split: prod.split)
next
  case (Cons lm rest)
  show ?case
  proof (cases "length lm < 21")
    case True
    then show ?thesis using Cons.IH [OF Cons.prems] by simp
  next
    case False
    show ?thesis
    proof (cases "analyzeHandActivity lm (previousHandLandmarks (snd (snd acc)) i) face")
      case (Inl e)
      then show ?thesis using False Cons.prems by simp
    next
      case (Inr ha)
      obtain near d st where acc: "acc = (near, d, st)" by (cases acc) auto
      have "frame_rel cfg h st0 (snd (snd (handStep cfg h i lm ha acc)))"
        using Cons.prems frame_rel_handStep [where st = st and cfg = cfg and h = h and i = i and lm = lm and ha = ha and near = near and d = d] acc
        by (auto intro: frame_rel_trans)
      from Cons.IH [OF this] show ?thesis using False Inr by simp
    qed
  qed
qed

lemma frame_rel_handLogic:
  "(case handLogic v cfg h st of
      Inl (e, st1) \<Rightarrow> frame_rel cfg h st st1
    | Inr (hands, near, d, st1) \<Rightarrow> frame_rel cfg h st st1)"
proof (cases "latestHandResults st")
  case None
  then show ?thesis by (simp add: handLogic_def)
next
  case (Some hs)
  show ?thesis
  proof (cases hs)
    case Nil
    with Some show ?thesis by (simp add: handLogic_def)
  next
    case (Cons lm others)
    show ?thesis
    proof (cases "v = App_first")
      case True
      with Some Cons show ?thesis
        by (simp add: handLogic_def split: option.split sum.split)
    next
      case False
      have "frame_rel cfg h st (snd (snd (False, 0::real, st)))" by simp
      from frame_rel_handLoop [OF this, where face = "firstFace st" and i = 0
          and hands = "lm # others"]
      show ?thesis using Some Cons False
        by (auto simp add: handLogic_def split: sum.splits prod.splits)
    qed
  qed
qed

lemma frame_rel_analyseFrame:
  "(case analyseFrame v cfg h st of
      Inl (e, st1) \<Rightarrow> frame_rel cfg h st st1
    | Inr (cs, d, st1) \<Rightarrow> frame_rel cfg h st st1)"
proof -
  obtain status1 d1 st1 where f: "faceLogic v cfg h st = (status1, d1, st1)"
    by (cases "faceLogic v cfg h st") auto
  have r1: "frame_rel cfg h st st1" using frame_rel_faceLogic [where st = st and v = v and cfg = cfg and h = h] f by simp
  show ?thesis
    using frame_rel_handLogic [where v = v and cfg = cfg and h = h and st = st1] r1 f
    by (auto simp add: analyseFrame_def split: sum.splits prod.splits intro: frame_rel_trans)
qed


section \<open>The score rule\<close>

lemma scoreUpdate_bounds: "0 \<le> scoreUpdate mode d s \<and> scoreUpdate mode d s \<le> 100"
  by (simp add: scoreUpdate_def Let_def)

lemma scoreUpdate_eq:
  "scoreUpdate mode d s = max 0 (min 100 (s - d * spec_multiplier mode + recoveryOf d))"
  by (cases mode) (simp_all add: scoreUpdate_def spec_multiplier_def recoveryOf_def Let_def)

text \<open>
  Claim C2, as stated: the new score is the clamp of \<open>s + (r - d) * multiplier\<close>. It fails
  on a frame without deduction in Coding mode: from 50 the source gives 50.05, the claimed
  rule 50.06, since the source scales the deduction only.
\<close>

theorem C2_recovery_not_scaled:
  "scoreUpdate Coding 0 50 = 5005/100 \<and> spec_scoreUpdate Coding 50 0 (recoveryOf 0) = 5006/100"
  by (simp add: scoreUpdate_def spec_scoreUpdate_def spec_multiplier_def recoveryOf_def Let_def)

text \<open>
  Claim C2, amended: in every per-frame score update the deduction is scaled by the
  exam-mode multiplier (1.2 Coding, 0.8 Written, 1 MCQ) and the recovery is added unscaled,
  the new score being the clamp to [0, 100] of \<open>s - d * multiplier + r\<close>; this is the
  claimed \<open>s + (r - d) * multiplier\<close> whenever the deduction is positive (then \<open>r = 0\<close>)
  or the mode is MCQ.
\<close>

theorem C2_deduction_scaled:
  "scoreUpdate mode d s = max 0 (min 100 (s - d * spec_multiplier mode + recoveryOf d))
   \<and> (d > 0 \<or> mode = MCQ \<longrightarrow> scoreUpdate mode d s = spec_scoreUpdate mode s d (recoveryOf d))"
  by (cases mode)
    (auto simp add: scoreUpdate_def spec_scoreUpdate_def spec_multiplier_def recoveryOf_def
       Let_def algebra_simps)

theorem C2_deduction_scaled_witness:
  "scoreUpdate Coding 1 50 = spec_scoreUpdate Coding 50 1 (recoveryOf 1)
   \<and> scoreUpdate Coding 1 50 = 488/10"
  using C2_deduction_scaled [of Coding 1 50]
  by (simp add: spec_scoreUpdate_def spec_multiplier_def recoveryOf_def)


section \<open>Reachable states\<close>

lemma processFrame_shape:
  "snd (processFrame v cl h st) = st
   \<or> (\<exists>st1. frame_rel (c_config cl) h st st1 \<and> snd (processFrame v cl h st) = st1)
   \<or> (\<exists>st1 cs fs d. frame_rel (c_config cl) h st st1
        \<and> snd (processFrame v cl h st)
            = st1\<lparr>status := cs, focusStatus := fs, score := scoreUpdate (examMode (c_config cl)) d (score st)\<rparr>)"
proof (cases "\<not> canvasRef h \<or> \<not> videoRef h \<or> \<not> overlayCtx h")
  case True
  then show ?thesis by (auto simp: processFrame_def)
next
  case False
  show ?thesis
  proof (cases "analyseFrame v (c_config cl) h st")
    case (Inl x)
    then show ?thesis
      using frame_rel_analyseFrame [where v = v and cfg = "c_config cl" and h = h and st = st] False
      by (cases x) (auto simp: processFrame_def)
  next
    case (Inr y)
    obtain cs d st1 where y: "y = (cs, d, st1)" by (cases y) auto
    have r: "frame_rel (c_config cl) h st st1"
      using frame_rel_analyseFrame [where v = v and cfg = "c_config cl" and h = h and st = st] Inr y
      by simp
    then have s: "score st1 = score st" by (simp add: frame_rel_def)
    have "snd (processFrame v cl h st)
            = st1\<lparr>status := cs,
                  focusStatus := focusStatus (if v = App_part004 \<and> c_studyMode cl
                        then updateFocusStatus cs (st1\<lparr>status := cs\<rparr>) else st1\<lparr>status := cs\<rparr>),
                  score := scoreUpdate (examMode (c_config cl)) d (score st)\<rparr>"
      using False Inr y s by (simp add: processFrame_def Let_def updateFocusStatus_def)
    with r show ?thesis by blast
  qed
qed

lemma reachable_ok_frame_rel:
  "frame_rel cfg h st st1 \<Longrightarrow> reachable_ok v st \<Longrightarrow> reachable_ok v st1"
  by (auto simp: frame_rel_def reachable_ok_def score_ok_def closure_ok_def split: if_splits)

lemma reachable_ok_display [simp]:
  "reachable_ok v (st\<lparr>status := cs\<rparr>) = reachable_ok v st"
  "reachable_ok v (st\<lparr>focusStatus := fs\<rparr>) = reachable_ok v st"
  "reachable_ok v (st\<lparr>latestFaceResults := fr\<rparr>) = reachable_ok v st"
  "reachable_ok v (st\<lparr>latestHandResults := hr\<rparr>) = reachable_ok v st"
  "reachable_ok v (st\<lparr>aiPending := requests\<rparr>) = reachable_ok v st"
  by (simp_all add: reachable_ok_def score_ok_def log_ok_def closure_ok_def)

lemma reachable_ok_score:
  "reachable_ok v st \<Longrightarrow> 0 \<le> x \<Longrightarrow> x \<le> 100 \<Longrightarrow> reachable_ok v (st\<lparr>score := x\<rparr>)"
  by (simp add: reachable_ok_def score_ok_def log_ok_def closure_ok_def)

lemma reachable_ok_processFrame:
  assumes "reachable_ok v st"
  shows "reachable_ok v (snd (processFrame v cl h st))"
proof -
  from processFrame_shape [of v cl h st]
  consider "snd (processFrame v cl h st) = st"
    | st1 where "frame_rel (c_config cl) h st st1" "snd (processFrame v cl h st) = st1"
    | st1 cs fs d where "frame_rel (c_config cl) h st st1"
        "snd (processFrame v cl h st)
            = st1\<lparr>status := cs, focusStatus := fs, score := scoreUpdate (examMode (c_config cl)) d (score st)\<rparr>"
    by blast
  then show ?thesis
  proof cases
    case 1
    then show ?thesis using assms by simp
  next
    case 2
    then show ?thesis using assms reachable_ok_frame_rel by simp
  next
    case 3
    have "reachable_ok v (st1\<lparr>status := cs, focusStatus := fs\<rparr>)"
      using 3(1) assms reachable_ok_frame_rel by simp
    from reachable_ok_score [OF this, of "scoreUpdate (examMode (c_config cl)) d (score st)"]
    show ?thesis using 3(2) scoreUpdate_bounds [of "examMode (c_config cl)" d "score st"] by simp
  qed
qed

lemma reachable_ok_rerender:
  "score_ok st \<Longrightarrow> log_ok st \<Longrightarrow> closure_ok v (rerender v st) \<Longrightarrow> reachable_ok v (rerender v st)"
  by (simp add: reachable_ok_def rerender_def Let_def score_ok_def log_ok_def)

lemma closure_ok_rerender: "closure_ok v (rerender v st)"
  by (auto simp: closure_ok_def rerender_def Let_def processFrame_deps_def logEvent_deps_def
      captureScreenshot_deps_def)

lemma reachable_ok_penalty:
  assumes "reachable_ok v st"
  shows "reachable_ok v ((logEvent cfg h ty sev descr st)\<lparr>score := max 0 (score (logEvent cfg h ty sev descr st) - 5)\<rparr>)"
proof -
  have r: "reachable_ok v (logEvent cfg h ty sev descr st)"
    using assms reachable_ok_frame_rel [OF frame_rel_logEvent] by simp
  then have "score (logEvent cfg h ty sev descr st) \<le> 100"
    by (simp add: reachable_ok_def score_ok_def)
  then show ?thesis using reachable_ok_score [OF r] by simp
qed

lemma reachable_ok_step:
  assumes "reachable_ok v st"
  shows "reachable_ok v (step v st a)"
proof (cases a)
  case (FaceResults r h)
  then show ?thesis
    using reachable_ok_processFrame [of v "st\<lparr>latestFaceResults := r\<rparr>" "processFrameRef st" h] assms
    by simp
next
  case (HandResults r h)
  then show ?thesis
    using reachable_ok_processFrame [of v "st\<lparr>latestHandResults := r\<rparr>" "processFrameRef st" h] assms
    by simp
next
  case (SetConfig c)
  then show ?thesis
    using assms closure_ok_rerender [of v "st\<lparr>config := applyChange c (config st)\<rparr>"]
    by (simp add: reachable_ok_def rerender_def Let_def score_ok_def log_ok_def)
next
  case (SetStudyMode b)
  then show ?thesis
    using assms closure_ok_rerender [of v "st\<lparr>studyMode := b\<rparr>"]
    by (simp add: reachable_ok_def rerender_def Let_def score_ok_def log_ok_def)
next
  case (DemoTick random h)
  then show ?thesis
    using assms reachable_ok_penalty [OF assms] by (simp add: Let_def)
next
  case DemoStatusReset
  then show ?thesis using assms by simp
next
  case (SetCameraPermission b)
  then show ?thesis
    using assms closure_ok_rerender [of v "st\<lparr>cameraPermission := b\<rparr>"]
    by (simp add: reachable_ok_def rerender_def Let_def score_ok_def log_ok_def)
next
  case (AiTick h)
  then show ?thesis using assms by auto
next
  case (AiResult n result h)
  let ?st0 = "st\<lparr>aiPending := take n (aiPending st) @ drop (Suc n) (aiPending st)\<rparr>"
  have "reachable_ok v ?st0" using assms by simp
  from reachable_ok_penalty [OF this] show ?thesis
    using assms AiResult by (simp add: Let_def)
qed

lemma reachable_ok_initial: "reachable_ok v INITIAL_STATE"
  by (simp add: reachable_ok_def score_ok_def log_ok_def closure_ok_def INITIAL_STATE_def)

lemma reachable_ok_foldl:
  "reachable_ok v st \<Longrightarrow> reachable_ok v (foldl (step v) st actions)"
  by (induction actions arbitrary: st) (simp_all add: reachable_ok_step)

lemma reachable_ok_run: "reachable_ok v (run v INITIAL_STATE actions)"
  by (simp add: run_def reachable_ok_foldl reachable_ok_initial)

text \<open>
  Claim C1: from the initial score of 100, after every update of every sequence of
  callbacks (face results and hand results in any order and at any times, changes of the
  configuration, demo ticks, AI flags) the score lies in [0, 100]; \<open>take n actions\<close> is the
  sequence up to its \<open>n\<close>-th update. The per-frame update is the clamp
  \<open>max 0 (min 100 _)\<close> of the new value.
\<close>

theorem C1_score_within_bounds:
  "0 \<le> score (run v INITIAL_STATE (take n actions))
   \<and> score (run v INITIAL_STATE (take n actions)) \<le> 100
   \<and> scoreUpdate mode d s = max 0 (min 100 (s - d * spec_multiplier mode + recoveryOf d))
   \<and> 0 \<le> scoreUpdate mode d s \<and> scoreUpdate mode d s \<le> 100"
  using reachable_ok_run [of v "take n actions"] scoreUpdate_eq [of mode d s]
    scoreUpdate_bounds [of mode d s]
  by (simp add: reachable_ok_def score_ok_def)


section \<open>The event log\<close>

lemma events_processFrame: "prefix (events st) (events (snd (processFrame v cl h st)))"
  using processFrame_shape [of v cl h st] by (auto simp: frame_rel_def)

lemma events_logEvent: "prefix (events st) (events (logEvent cfg h ty sev descr st))"
  by (simp add: logEvent_def Let_def)

lemma events_answer:
  "prefix (events st) (events (logEvent cfg h ty sev descr (st\<lparr>aiPending := requests\<rparr>)))"
  using events_logEvent [of "st\<lparr>aiPending := requests\<rparr>" cfg h ty sev descr] by simp

lemma events_step: "prefix (events st) (events (step v st a))"
proof (cases a)
  case (FaceResults r h)
  then show ?thesis
    using events_processFrame [of "st\<lparr>latestFaceResults := r\<rparr>" v "processFrameRef st" h] by simp
next
  case (HandResults r h)
  then show ?thesis
    using events_processFrame [of "st\<lparr>latestHandResults := r\<rparr>" v "processFrameRef st" h] by simp
qed (simp_all add: rerender_def Let_def events_logEvent events_answer)

lemma events_foldl: "prefix (events st) (events (foldl (step v) st actions))"
proof (induction actions arbitrary: st)
  case Nil
  show ?case by simp
next
  case (Cons a actions)
  have "prefix (events st) (events (step v st a))" by (rule events_step)
  also have "prefix (events (step v st a)) (events (foldl (step v) (step v st a) actions))"
    by (rule Cons.IH)
  finally show ?case by simp
qed

lemma run_missing_face_frames:
  "map timestamp (events (run App_second INITIAL_STATE missing_face_frames)) = [14000, 20000]"
  by (simp add: run_def missing_face_frames_def processFrame_def analyseFrame_def faceLogic_def
      noFaceBlock_def handLogic_def logEvent_def captureScreenshot_def scoreUpdate_def
      browser_def INITIAL_STATE_def INITIAL_CONFIG_def INITIAL_STATUS_def unset_def Let_def)

text \<open>
  Claim C9: in the log of every reachable state the timestamp of the event at position
  \<open>i\<close> is at most that of the event at every later position \<open>j\<close> (the timestamps are
  sorted in log order), and the log only grows at its end: whatever callbacks follow, the
  log so far stays a prefix of the log, so no logged event is changed or removed.
\<close>

theorem C9_log_in_time_order:
  "(\<forall>i j. i < j \<and> j < length (events (run v INITIAL_STATE actions)) \<longrightarrow>
      timestamp (events (run v INITIAL_STATE actions) ! i)
        \<le> timestamp (events (run v INITIAL_STATE actions) ! j))
   \<and> sorted (map timestamp (events (run v INITIAL_STATE actions)))
   \<and> prefix (events (run v INITIAL_STATE actions))
        (events (run v INITIAL_STATE (actions @ later)))"
proof -
  let ?evs = "events (run v INITIAL_STATE actions)"
  have s: "sorted (map timestamp ?evs)"
    using reachable_ok_run [of v actions] by (simp add: reachable_ok_def log_ok_def)
  have "\<forall>i j. i < j \<and> j < length ?evs \<longrightarrow> timestamp (?evs ! i) \<le> timestamp (?evs ! j)"
  proof (intro allI impI)
    fix i j assume ij: "i < j \<and> j < length ?evs"
    then have "map timestamp ?evs ! i \<le> map timestamp ?evs ! j"
      using s by (simp add: sorted_iff_nth_mono)
    with ij show "timestamp (?evs ! i) \<le> timestamp (?evs ! j)" by simp
  qed
  moreover have "prefix ?evs (events (run v INITIAL_STATE (actions @ later)))"
    by (simp add: run_def events_foldl)
  ultimately show ?thesis using s by blast
qed

theorem C9_log_in_time_order_witness:
  "map timestamp (events (run App_second INITIAL_STATE missing_face_frames)) = [14000, 20000]
   \<and> timestamp (events (run App_second INITIAL_STATE missing_face_frames) ! 0)
      \<le> timestamp (events (run App_second INITIAL_STATE missing_face_frames) ! 1)"
proof -
  let ?r = "run App_second INITIAL_STATE missing_face_frames"
  have "length (map timestamp (events ?r)) = length [14000::int, 20000]"
    by (simp only: run_missing_face_frames)
  then have "(0::nat) < 1 \<and> 1 < length (events ?r)" by simp
  with C9_log_in_time_order [of App_second missing_face_frames "[]"]
  show ?thesis using run_missing_face_frames by blast
qed


section \<open>Snapshots\<close>









lemma aiPending_logEvent [simp]: "aiPending (logEvent cfg h ty sev descr st) = aiPending st"
  by (simp add: logEvent_def Let_def)











section \<open>Which events a frame may log\<close>

lemma appends_refl [simp]: "appends P st st"
  by (simp add: appends_def)

lemma appends_trans: "appends P a b \<Longrightarrow> appends P b c \<Longrightarrow> appends P a c"
  by (auto simp: appends_def)

lemma appends_mono: "appends P a b \<Longrightarrow> (\<And>e. P e \<Longrightarrow> Q e) \<Longrightarrow> appends Q a b"
  by (auto simp: appends_def list_all_iff)

lemma appends_logEvent:
  "(\<And>e. etype e = ty \<Longrightarrow> P e) \<Longrightarrow> appends P st (logEvent cfg h ty sev descr st)"
  by (simp add: appends_def logEvent_def Let_def)

lemma appends_timers [simp]:
  "appends P st (st'\<lparr>lookingAwayStartTime := a\<rparr>) = appends P st st'"
  "appends P st (st'\<lparr>talkingStartTime := a\<rparr>) = appends P st st'"
  "appends P st (st'\<lparr>missingFaceStartTime := a\<rparr>) = appends P st st'"
  "appends P st (st'\<lparr>previousHandLandmarks := f\<rparr>) = appends P st st'"
  by (simp_all add: appends_def)

lemma logEvent_keeps [simp]:
  "lookingAwayStartTime (logEvent cfg h ty sev descr st) = lookingAwayStartTime st"
  "talkingStartTime (logEvent cfg h ty sev descr st) = talkingStartTime st"
  "missingFaceStartTime (logEvent cfg h ty sev descr st) = missingFaceStartTime st"
  "latestFaceResults (logEvent cfg h ty sev descr st) = latestFaceResults st"
  "latestHandResults (logEvent cfg h ty sev descr st) = latestHandResults st"
  "previousHandLandmarks (logEvent cfg h ty sev descr st) = previousHandLandmarks st"
  by (simp_all add: logEvent_def Let_def)

lemma unset_Some: "unset (Some t0) = (t0 = 0)"
  by (simp add: unset_def)

lemma appends_multipleFacesBlock:
  "appends (\<lambda>e. etype e = MULTIPLE_FACES) st (snd (snd (multipleFacesBlock cfg h faces st)))"
  by (simp add: multipleFacesBlock_def appends_logEvent)

lemma timers_multipleFacesBlock:
  "lookingAwayStartTime (snd (snd (multipleFacesBlock cfg h faces st))) = lookingAwayStartTime st
   \<and> talkingStartTime (snd (snd (multipleFacesBlock cfg h faces st))) = talkingStartTime st"
  by (simp add: multipleFacesBlock_def)

lemma appends_headPoseBlock:
  "appends (\<lambda>e. etype e = LOOKING_AWAY \<and> awaySustained v cfg h lm st)
     st (snd (snd (headPoseBlock v cfg h lm st)))"
  by (cases "lookingAwayStartTime st")
    (auto simp add: headPoseBlock_def awaySustained_def unset_def appends_logEvent
       split: prod.split)

lemma timers_headPoseBlock:
  "talkingStartTime (snd (snd (headPoseBlock v cfg h lm st))) = talkingStartTime st"
  by (simp add: headPoseBlock_def split: prod.split)

lemma appends_talkingBlock:
  "appends (\<lambda>e. etype e = TALKING \<and> talkSustained talking h st)
     st (snd (snd (talkingBlock talking cfg h st)))"
  by (cases "talkingStartTime st")
    (auto simp add: talkingBlock_def talkSustained_def unset_def appends_logEvent)

lemma appends_noFaceBlock:
  "appends (\<lambda>e. etype e = FACE_MISSING) st (snd (noFaceBlock cfg h st))"
  by (simp add: noFaceBlock_def appends_logEvent)

lemma appends_faceLogic:
  "appends (frameEvent v cfg h st) st (snd (snd (faceLogic v cfg h st)))"
proof (cases "firstFace st")
  case None
  then have "faceLogic v cfg h st = (INITIAL_STATUS, noFaceBlock cfg h st)"
    by (auto simp add: faceLogic_def firstFace_def split: option.splits list.splits prod.splits)
  then show ?thesis
    using appends_mono [OF appends_noFaceBlock [of st cfg h], of "frameEvent v cfg h st"]
    by (simp add: frameEvent_def)
next
  case (Some lm)
  then obtain others where fr: "latestFaceResults st = Some (lm # others)"
    by (auto simp add: firstFace_def split: option.splits list.splits)
  obtain multi d1 st1 where m: "multipleFacesBlock cfg h (lm # others) st = (multi, d1, st1)"
    by (cases "multipleFacesBlock cfg h (lm # others) st") auto
  obtain away d2 st2 where a: "headPoseBlock v cfg h lm st1 = (away, d2, st2)"
    by (cases "headPoseBlock v cfg h lm st1") auto
  obtain talking d3 st3
    where t: "talkingBlock (talkingCondition v cfg lm) cfg h st2 = (talking, d3, st3)"
    by (cases "talkingBlock (talkingCondition v cfg lm) cfg h st2") auto
  have t1: "lookingAwayStartTime st1 = lookingAwayStartTime st"
    "talkingStartTime st1 = talkingStartTime st"
    using timers_multipleFacesBlock [of cfg h "lm # others" st] m by simp_all
  have t2: "talkingStartTime st2 = talkingStartTime st"
    using timers_headPoseBlock [of v cfg h lm st1] a t1 by simp
  have r1: "appends (frameEvent v cfg h st) st st1"
    using appends_mono [OF appends_multipleFacesBlock [of st cfg h "lm # others"],
        of "frameEvent v cfg h st"] m
    by (simp add: frameEvent_def)
  have "appends (\<lambda>e. etype e = LOOKING_AWAY \<and> awaySustained v cfg h lm st1) st1 st2"
    using appends_headPoseBlock [of v cfg h lm st1] a by simp
  then have r2: "appends (frameEvent v cfg h st) st1 st2"
    by (rule appends_mono) (simp add: frameEvent_def Some awaySustained_def t1)
  have "appends (\<lambda>e. etype e = TALKING \<and> talkSustained (talkingCondition v cfg lm) h st2) st2 st3"
    using appends_talkingBlock [of "talkingCondition v cfg lm" h st2 cfg] t by simp
  then have r3: "appends (frameEvent v cfg h st) st2 st3"
    by (rule appends_mono) (simp add: frameEvent_def Some talkSustained_def t2)
  have "appends (frameEvent v cfg h st) st st3"
    using r1 r2 r3 by (blast intro: appends_trans)
  then show ?thesis using fr m a t by (simp add: faceLogic_def)
qed

lemma appends_handStep:
  "appends handEvent st (snd (snd (handStep cfg h i lm ha (near, d, st))))"
  by (simp add: handStep_def Let_def appends_logEvent handEvent_def)

lemma appends_handLoop:
  "appends handEvent st0 (snd (snd acc)) \<Longrightarrow>
   (case handLoop cfg h face i hands acc of
      Inl (e, st1) \<Rightarrow> appends handEvent st0 st1
    | Inr (near, d, st1) \<Rightarrow> appends handEvent st0 st1)"
proof (induction hands arbitrary: i acc)
  case Nil
  then show ?case by (auto split: prod.split)
next
  case (Cons lm rest)
  show ?case
  proof (cases "length lm < 21")
    case True
    then show ?thesis using Cons.IH [OF Cons.prems] by simp
  next
    case False
    show ?thesis
    proof (cases "analyzeHandActivity lm (previousHandLandmarks (snd (snd acc)) i) face")
      case (Inl e)
      then show ?thesis using False Cons.prems by simp
    next
      case (Inr ha)
      obtain near d st where acc: "acc = (near, d, st)" by (cases acc) auto
      have "appends handEvent st0 (snd (snd (handStep cfg h i lm ha acc)))"
        using Cons.prems appends_handStep [of st cfg h i lm ha near d] acc
        by (auto intro: appends_trans)
      from Cons.IH [OF this] show ?thesis using False Inr by simp
    qed
  qed
qed

lemma appends_handLogic:
  "(case handLogic v cfg h st of
      Inl (e, st1) \<Rightarrow> appends handEvent st st1
    | Inr (hands, near, d, st1) \<Rightarrow> appends handEvent st st1)"
proof (cases "latestHandResults st")
  case None
  then show ?thesis by (simp add: handLogic_def)
next
  case (Some hs)
  show ?thesis
  proof (cases hs)
    case Nil
    with Some show ?thesis by (simp add: handLogic_def)
  next
    case (Cons lm others)
    show ?thesis
    proof (cases "v = App_first")
      case True
      with Some Cons show ?thesis
        by (simp add: handLogic_def split: option.split sum.split)
    next
      case False
      have "appends handEvent st (snd (snd (False, 0::real, st)))" by simp
      from appends_handLoop [OF this, where face = "firstFace st" and i = 0
          and hands = "lm # others" and cfg = cfg and h = h]
      show ?thesis using Some Cons False
        by (auto simp add: handLogic_def split: sum.splits prod.splits)
    qed
  qed
qed

lemma appends_analyseFrame:
  "(case analyseFrame v cfg h st of
      Inl (e, st1) \<Rightarrow> appends (frameEvent v cfg h st) st st1
    | Inr (cs, d, st1) \<Rightarrow> appends (frameEvent v cfg h st) st st1)"
proof -
  obtain status1 d1 st1 where f: "faceLogic v cfg h st = (status1, d1, st1)"
    by (cases "faceLogic v cfg h st") auto
  have r1: "appends (frameEvent v cfg h st) st st1"
    using appends_faceLogic [of v cfg h st] f by simp
  have m: "\<And>st2. appends handEvent st1 st2 \<Longrightarrow> appends (frameEvent v cfg h st) st st2"
  proof -
    fix st2 assume "appends handEvent st1 st2"
    then have "appends (frameEvent v cfg h st) st1 st2"
      by (rule appends_mono) (auto simp add: handEvent_def frameEvent_def)
    with r1 show "appends (frameEvent v cfg h st) st st2" by (rule appends_trans)
  qed
  show ?thesis
    using appends_handLogic [where v = v and cfg = cfg and h = h and st = st1] f m
    by (auto simp add: analyseFrame_def split: sum.splits prod.splits)
qed

lemma appends_display [simp]:
  "appends P st (st'\<lparr>status := cs\<rparr>) = appends P st st'"
  "appends P st (st'\<lparr>score := x\<rparr>) = appends P st st'"
  "appends P st (st'\<lparr>focusStatus := fs\<rparr>) = appends P st st'"
  by (simp_all add: appends_def)

lemma appends_processFrame:
  "appends (frameEvent v (c_config cl) h st) st (snd (processFrame v cl h st))"
  using appends_analyseFrame [of v "c_config cl" h st]
  by (auto simp add: processFrame_def Let_def updateFocusStatus_def split: sum.splits prod.splits)

subsection \<open>Status\<close>

lemma fst_headPoseBlock:
  "fst (headPoseBlock v cfg h lm st)
     = (case calculateHeadPose lm of (yaw, pitch) \<Rightarrow> lookingAway v cfg yaw pitch)"
  by (simp add: headPoseBlock_def split: prod.split)

lemma fst_talkingBlock: "fst (talkingBlock talking cfg h st) = talking"
  by (simp add: talkingBlock_def)

lemma status_faceLogic:
  "latestFaceResults st = Some (lm # others) \<Longrightarrow>
   fst (faceLogic v cfg h st) =
     INITIAL_STATUS\<lparr>faceDetected := True, multipleFaces := (length (lm # others) > 1),
        isLookingAway := (case calculateHeadPose lm of (yaw, pitch) \<Rightarrow> lookingAway v cfg yaw pitch),
        isTalking := talkingCondition v cfg lm\<rparr>"
proof -
  assume fr: "latestFaceResults st = Some (lm # others)"
  obtain multi d1 st1 where m: "multipleFacesBlock cfg h (lm # others) st = (multi, d1, st1)"
    by (cases "multipleFacesBlock cfg h (lm # others) st") auto
  obtain away d2 st2 where a: "headPoseBlock v cfg h lm st1 = (away, d2, st2)"
    by (cases "headPoseBlock v cfg h lm st1") auto
  obtain talking d3 st3
    where t: "talkingBlock (talkingCondition v cfg lm) cfg h st2 = (talking, d3, st3)"
    by (cases "talkingBlock (talkingCondition v cfg lm) cfg h st2") auto
  have 1: "multi = (length (lm # others) > 1)"
    using m by (auto simp add: multipleFacesBlock_def split: if_splits)
  have 2: "away = (case calculateHeadPose lm of (yaw, pitch) \<Rightarrow> lookingAway v cfg yaw pitch)"
    using fst_headPoseBlock [of v cfg h lm st1] a by simp
  have 3: "talking = talkingCondition v cfg lm"
    using fst_talkingBlock [of "talkingCondition v cfg lm" cfg h st2] t by simp
  show ?thesis using fr m a t 1 2 3 by (simp add: faceLogic_def)
qed

lemma status_analyseFrame:
  "analyseFrame v cfg h st = Inr (cs, d, st1) \<Longrightarrow>
   \<exists>hands near. cs = (fst (faceLogic v cfg h st))\<lparr>handsDetected := hands, handNearFace := near\<rparr>"
  by (auto simp add: analyseFrame_def split: prod.splits sum.splits)

lemma frameStatus_processFrame:
  "frameStatus v (c_config cl) h st = Some cs \<Longrightarrow>
   fst (processFrame v cl h st) = None \<and> status (snd (processFrame v cl h st)) = cs"
  by (auto simp add: frameStatus_def processFrame_def Let_def updateFocusStatus_def
      split: if_splits sum.splits prod.splits)

lemma frameDeduction_processFrame:
  "frameDeduction v (c_config cl) h st = Some d \<Longrightarrow>
   fst (processFrame v cl h st) = None
   \<and> score (snd (processFrame v cl h st)) = scoreUpdate (examMode (c_config cl)) d (score st)"
proof -
  assume a: "frameDeduction v (c_config cl) h st = Some d"
  then have c: "canvasRef h \<and> videoRef h \<and> overlayCtx h"
    by (simp add: frameDeduction_def split: if_splits)
  from a c obtain cs st1 where r: "analyseFrame v (c_config cl) h st = Inr (cs, d, st1)"
    by (auto simp add: frameDeduction_def split: sum.splits prod.splits)
  have "frame_rel (c_config cl) h st st1"
    using frame_rel_analyseFrame [where v = v and cfg = "c_config cl" and h = h and st = st] r
    by simp
  then have "score st1 = score st" by (simp add: frame_rel_def)
  then show ?thesis using c r by (simp add: processFrame_def Let_def updateFocusStatus_def)
qed

subsection \<open>Deductions are never negative\<close>

lemma deduction_faceLogic: "0 \<le> fst (snd (faceLogic v cfg h st))"
  by (simp add: faceLogic_def multipleFacesBlock_def headPoseBlock_def talkingBlock_def
      noFaceBlock_def split: option.split list.split prod.split)

lemma deduction_handLoop:
  "0 \<le> fst (snd acc) \<Longrightarrow>
   (case handLoop cfg h face i hands acc of
      Inl x \<Rightarrow> True
    | Inr (near, d, st1) \<Rightarrow> 0 \<le> d)"
proof (induction hands arbitrary: i acc)
  case Nil
  then show ?case by (auto split: prod.split)
next
  case (Cons lm rest)
  show ?case
  proof (cases "length lm < 21")
    case True
    then show ?thesis using Cons.IH [OF Cons.prems] by simp
  next
    case False
    show ?thesis
    proof (cases "analyzeHandActivity lm (previousHandLandmarks (snd (snd acc)) i) face")
      case (Inl e)
      then show ?thesis using False by simp
    next
      case (Inr ha)
      have "0 \<le> fst (snd (handStep cfg h i lm ha acc))"
        using Cons.prems by (cases acc) (simp add: handStep_def Let_def)
      from Cons.IH [OF this] show ?thesis using False Inr by simp
    qed
  qed
qed

lemma deduction_handLogic:
  "(case handLogic v cfg h st of
      Inl x \<Rightarrow> True
    | Inr (hands, near, d, st1) \<Rightarrow> 0 \<le> d)"
proof (cases "latestHandResults st")
  case None
  then show ?thesis by (simp add: handLogic_def)
next
  case (Some hs)
  show ?thesis
  proof (cases hs)
    case Nil
    with Some show ?thesis by (simp add: handLogic_def)
  next
    case (Cons lm others)
    show ?thesis
    proof (cases "v = App_first")
      case True
      with Some Cons show ?thesis
        by (simp add: handLogic_def split: option.split sum.split)
    next
      case False
      have "0 \<le> fst (snd (False, 0::real, st))" by simp
      from deduction_handLoop [OF this, where face = "firstFace st" and i = 0
          and hands = "lm # others" and cfg = cfg and h = h]
      show ?thesis using Some Cons False
        by (auto simp add: handLogic_def split: sum.splits prod.splits)
    qed
  qed
qed

lemma frameDeduction_nonneg: "frameDeduction v cfg h st = Some d \<Longrightarrow> 0 \<le> d"
proof -
  assume a: "frameDeduction v cfg h st = Some d"
  obtain status1 d1 st1 where f: "faceLogic v cfg h st = (status1, d1, st1)"
    by (cases "faceLogic v cfg h st") auto
  have 1: "0 \<le> d1" using deduction_faceLogic [of v cfg h st] f by simp
  show ?thesis
    using a f 1 deduction_handLogic [where v = v and cfg = cfg and h = h and st = st1]
    by (auto simp add: frameDeduction_def analyseFrame_def split: if_splits sum.splits prod.splits)
qed


section \<open>Recovery\<close>

text \<open>
  Claim C4: on a frame whose total deduction is 0 the score grows by the recovery increment
  0.05, capped at 100 (it is strictly larger than before unless it already was 100); on a
  frame with a nonzero deduction (deductions are never negative) no recovery is applied:
  the new score is the clamp of the old one minus the scaled deduction. Stated for the
  score rule and for \<open>processFrame\<close> on every frame that reaches \<open>setScore\<close>.
\<close>

theorem C4_recovery:
  "(0 \<le> s \<and> s \<le> 100 \<longrightarrow>
      scoreUpdate mode 0 s = min 100 (s + 5/100)
      \<and> (s < 100 \<longrightarrow> s < scoreUpdate mode 0 s)
      \<and> (s + 5/100 \<le> 100 \<longrightarrow> scoreUpdate mode 0 s = s + 5/100))
   \<and> (d > 0 \<longrightarrow> scoreUpdate mode d s = max 0 (min 100 (s - d * spec_multiplier mode)))
   \<and> (frameDeduction v (c_config cl) h st = Some fd \<and> 0 \<le> score st \<and> score st \<le> 100 \<longrightarrow>
        0 \<le> fd
        \<and> (fd = 0 \<longrightarrow>
             score (snd (processFrame v cl h st)) = min 100 (score st + 5/100)
             \<and> (score st < 100 \<longrightarrow> score st < score (snd (processFrame v cl h st))))
        \<and> (fd \<noteq> 0 \<longrightarrow>
             score (snd (processFrame v cl h st))
               = max 0 (min 100 (score st - fd * spec_multiplier (examMode (c_config cl))))))"
proof -
  have a: "0 \<le> s \<and> s \<le> 100 \<longrightarrow>
      scoreUpdate mode 0 s = min 100 (s + 5/100)
      \<and> (s < 100 \<longrightarrow> s < scoreUpdate mode 0 s)
      \<and> (s + 5/100 \<le> 100 \<longrightarrow> scoreUpdate mode 0 s = s + 5/100)"
    by (auto simp add: scoreUpdate_def Let_def)
  have b: "\<And>x y. x > 0 \<longrightarrow> scoreUpdate mode x y = max 0 (min 100 (y - x * spec_multiplier mode))"
    by (simp add: scoreUpdate_eq recoveryOf_def)
  have c: "frameDeduction v (c_config cl) h st = Some fd \<and> 0 \<le> score st \<and> score st \<le> 100 \<longrightarrow>
        0 \<le> fd
        \<and> (fd = 0 \<longrightarrow>
             score (snd (processFrame v cl h st)) = min 100 (score st + 5/100)
             \<and> (score st < 100 \<longrightarrow> score st < score (snd (processFrame v cl h st))))
        \<and> (fd \<noteq> 0 \<longrightarrow>
             score (snd (processFrame v cl h st))
               = max 0 (min 100 (score st - fd * spec_multiplier (examMode (c_config cl)))))"
  proof
    assume p: "frameDeduction v (c_config cl) h st = Some fd \<and> 0 \<le> score st \<and> score st \<le> 100"
    then have n: "0 \<le> fd" using frameDeduction_nonneg by blast
    have e: "score (snd (processFrame v cl h st))
        = scoreUpdate (examMode (c_config cl)) fd (score st)"
      using p frameDeduction_processFrame by blast
    have z: "fd = 0 \<longrightarrow>
             score (snd (processFrame v cl h st)) = min 100 (score st + 5/100)
             \<and> (score st < 100 \<longrightarrow> score st < score (snd (processFrame v cl h st)))"
      using e p by (auto simp add: scoreUpdate_def Let_def)
    have "fd \<noteq> 0 \<longrightarrow> fd > 0" using n by simp
    then have nz: "fd \<noteq> 0 \<longrightarrow>
             score (snd (processFrame v cl h st))
               = max 0 (min 100 (score st - fd * spec_multiplier (examMode (c_config cl))))"
      using e b [of fd "score st"] by (simp add: scoreUpdate_eq recoveryOf_def)
    show "0 \<le> fd
        \<and> (fd = 0 \<longrightarrow>
             score (snd (processFrame v cl h st)) = min 100 (score st + 5/100)
             \<and> (score st < 100 \<longrightarrow> score st < score (snd (processFrame v cl h st))))
        \<and> (fd \<noteq> 0 \<longrightarrow>
             score (snd (processFrame v cl h st))
               = max 0 (min 100 (score st - fd * spec_multiplier (examMode (c_config cl)))))"
      using n z nz by blast
  qed
  show ?thesis using a b [of d s] c by blast
qed

lemma frameDeduction_half_score: "frameDeduction App_second INITIAL_CONFIG (browser 10000) half_score = Some 0"
  by (simp add: frameDeduction_def half_score_def analyseFrame_def faceLogic_def
      noFaceBlock_def handLogic_def browser_def INITIAL_STATE_def unset_def)

lemma frameDeduction_face_missing_4s:
  "frameDeduction App_second (INITIAL_CONFIG\<lparr>examMode := Coding\<rparr>) (browser 14000) face_missing_4s
     = Some (5/10)"
  by (simp add: frameDeduction_def face_missing_4s_def analyseFrame_def faceLogic_def
      noFaceBlock_def handLogic_def logEvent_def browser_def INITIAL_STATE_def unset_def Let_def)

theorem C4_recovery_witness:
  "scoreUpdate Written 0 (9999/100) = 100
   \<and> scoreUpdate Written 0 50 = 5005/100
   \<and> scoreUpdate Coding (1/2) 50 = 494/10
   \<and> score (snd (processFrame App_second \<lparr>c_config = INITIAL_CONFIG, c_studyMode = False\<rparr>
              (browser 10000) half_score)) = 5005/100
   \<and> score (snd (processFrame App_second
              \<lparr>c_config = INITIAL_CONFIG\<lparr>examMode := Coding\<rparr>, c_studyMode = False\<rparr>
              (browser 14000) face_missing_4s)) = 494/10"
proof -
  have 1: "(0::real) \<le> 9999/100 \<and> (9999/100::real) \<le> 100 \<and> (9999/100::real) < 100" by simp
  have 2: "(0::real) \<le> 50 \<and> (50::real) \<le> 100 \<and> (50::real) + 5/100 \<le> 100" by simp
  have 3: "(1/2::real) > 0" by simp
  have 4: "0 \<le> score half_score \<and> score half_score \<le> 100 \<and> score half_score = 50"
    by (simp add: half_score_def INITIAL_STATE_def)
  have 5: "0 \<le> score face_missing_4s \<and> score face_missing_4s \<le> 100 \<and> score face_missing_4s = 50"
    by (simp add: face_missing_4s_def INITIAL_STATE_def)
  have 6: "(1/2::real) \<noteq> 0" by simp
  show ?thesis
    using 1 2 3 4 5 6 frameDeduction_half_score frameDeduction_face_missing_4s
      C4_recovery [of "9999/100" Written "1/2" App_second "\<lparr>c_config = INITIAL_CONFIG, c_studyMode = False\<rparr>"
        "browser 10000" half_score 0]
      C4_recovery [of 50 Written "1/2" App_second
        "\<lparr>c_config = INITIAL_CONFIG\<lparr>examMode := Coding\<rparr>, c_studyMode = False\<rparr>"
        "browser 14000" face_missing_4s "1/2"]
      C4_recovery [of 50 Coding "1/2" App_second "\<lparr>c_config = INITIAL_CONFIG, c_studyMode = False\<rparr>"
        "browser 10000" half_score 0]
    by (simp add: spec_multiplier_def INITIAL_CONFIG_def)
qed


section \<open>Face geometry and malformed face landmark sets\<close>

lemma hypot_0 [simp]: "hypot 0 b = \<bar>b\<bar>"
  by (simp add: hypot_def)

lemma entry_faceWith:
  "entry (faceWith n u l) 1 = Some n"
  "entry (faceWith n u l) (Suc 0) = Some n"
  "entry (faceWith n u l) 234 = Some (pt (4/10) (1/2))"
  "entry (faceWith n u l) 454 = Some (pt (6/10) (1/2))"
  "entry (faceWith n u l) 152 = Some (pt (1/2) (8/10))"
  "entry (faceWith n u l) 10 = Some (pt (1/2) (2/10))"
  "entry (faceWith n u l) 13 = Some u"
  "entry (faceWith n u l) 14 = Some l"
  by (simp_all add: entry_def faceWith_def)

lemma pose_face_yaw30: "calculateHeadPose face_yaw30 = (Finite (3/10), Finite 0)"
  by (simp add: calculateHeadPose_def face_yaw30_def entry_faceWith pt_def js_div_def Let_def)


lemma pose_face_talking: "calculateHeadPose face_talking = (Finite 0, Finite 0)"
  by (simp add: calculateHeadPose_def face_talking_def entry_faceWith pt_def js_div_def Let_def)

lemma mouth_face_talking: "calculateMouthOpenness face_talking = Finite (1/6)"
  by (simp add: calculateMouthOpenness_def face_talking_def entry_faceWith pt_def js_div_def Let_def)

lemma entry_face_without_lip:
  "entry face_without_lip 13 = None"
  "entry face_without_lip 1 = entry face_yaw30 1"
  "entry face_without_lip 234 = entry face_yaw30 234"
  "entry face_without_lip 454 = entry face_yaw30 454"
  "entry face_without_lip 152 = entry face_yaw30 152"
  "entry face_without_lip 10 = entry face_yaw30 10"
  by (simp_all add: face_without_lip_def entry_def face_yaw30_def faceWith_def)

lemma pose_face_without_lip: "calculateHeadPose face_without_lip = (Finite (3/10), Finite 0)"
proof -
  have "calculateHeadPose face_without_lip = calculateHeadPose face_yaw30"
    unfolding calculateHeadPose_def entry_face_without_lip by (rule refl)
  then show ?thesis by (simp only: pose_face_yaw30)
qed

lemma entry_face_300:
  "entry face_300 454 = None"
  "entry face_300 13 = entry face_talking 13"
  "entry face_300 14 = entry face_talking 14"
  "entry face_300 10 = entry face_talking 10"
  "entry face_300 152 = entry face_talking 152"
  by (simp_all add: face_300_def entry_def face_talking_def faceWith_def)

lemma mouth_face_300: "calculateMouthOpenness face_300 = Finite (1/6)"
proof -
  have "calculateMouthOpenness face_300 = calculateMouthOpenness face_talking"
    unfolding calculateMouthOpenness_def entry_face_300 by (rule refl)
  then show ?thesis by (simp only: mouth_face_talking)
qed

text \<open>
  Claim C10, as stated: a face landmark set that lacks any one of the seven landmarks makes
  both functions return zero and can flag neither looking-away nor talking. It fails for a
  set that lacks only a landmark the other function does not read: without the inner lip 13
  the head pose is still computed (yaw 0.30, looking away), and a set of 300 landmarks
  (no right cheek 454) still has a mouth openness of 1/6 and is flagged as talking.
\<close>

theorem C10_partly_missing_face_flagged:
  "entry face_without_lip 13 = None
   \<and> calculateHeadPose face_without_lip = (Finite (3/10), Finite 0)
   \<and> lookingAway App_first INITIAL_CONFIG (Finite (3/10)) (Finite 0)
   \<and> entry face_300 454 = None
   \<and> calculateMouthOpenness face_300 = Finite (1/6)
   \<and> talkingCondition App_second INITIAL_CONFIG face_300"
  by (simp add: entry_face_without_lip pose_face_without_lip entry_face_300 mouth_face_300
      lookingAway_def talkingCondition_def js_gt_def js_lt_def js_abs_def YAW_THRESHOLD_def
      TALK_THRESHOLD_def PITCH_THRESHOLD_def INITIAL_CONFIG_def)

lemma not_lookingAway_zero: "\<not> lookingAway v cfg (Finite 0) (Finite 0)"
  by (simp add: lookingAway_def js_gt_def js_lt_def js_abs_def YAW_THRESHOLD_def
      PITCH_THRESHOLD_def)

lemma not_talking_zero:
  "calculateMouthOpenness lm = Finite 0 \<Longrightarrow> \<not> talkingCondition v cfg lm"
  by (simp add: talkingCondition_def js_gt_def TALK_THRESHOLD_def)

text \<open>
  Claim C10, amended: \<open>calculateHeadPose\<close> returns yaw 0 and pitch 0 for every face
  landmark set that lacks the nose tip (1), a cheek (234, 454), the chin (152) or the
  forehead (10), and such a frame does not flag looking-away; \<open>calculateMouthOpenness\<close>
  returns 0 for every set that lacks an inner lip (13, 14), the forehead (10) or the chin
  (152), and such a frame does not flag talking. (A set without forehead or chin is in both
  cases.)
\<close>

theorem C10_missing_landmarks:
  "(entry lm 1 = None \<or> entry lm 234 = None \<or> entry lm 454 = None \<or> entry lm 152 = None
      \<or> entry lm 10 = None \<longrightarrow>
       calculateHeadPose lm = (Finite 0, Finite 0)
       \<and> (latestFaceResults st = Some (lm # others) \<and> frameStatus v cfg h st = Some cs \<longrightarrow>
            \<not> isLookingAway cs))
   \<and> (entry lm 13 = None \<or> entry lm 14 = None \<or> entry lm 10 = None \<or> entry lm 152 = None \<longrightarrow>
       calculateMouthOpenness lm = Finite 0
       \<and> (latestFaceResults st = Some (lm # others) \<and> frameStatus v cfg h st = Some cs \<longrightarrow>
            \<not> isTalking cs))"
proof -
  have fs: "latestFaceResults st = Some (lm # others) \<and> frameStatus v cfg h st = Some cs \<longrightarrow>
      isLookingAway cs = (case calculateHeadPose lm of (yaw, pitch) \<Rightarrow> lookingAway v cfg yaw pitch)
      \<and> isTalking cs = talkingCondition v cfg lm"
  proof
    assume a: "latestFaceResults st = Some (lm # others) \<and> frameStatus v cfg h st = Some cs"
    then obtain d st1 where "analyseFrame v cfg h st = Inr (cs, d, st1)"
      by (auto simp add: frameStatus_def split: if_splits sum.splits prod.splits)
    from status_analyseFrame [OF this] status_faceLogic [of st lm others v cfg h] a
    show "isLookingAway cs = (case calculateHeadPose lm of (yaw, pitch) \<Rightarrow> lookingAway v cfg yaw pitch)
      \<and> isTalking cs = talkingCondition v cfg lm"
      by auto
  qed
  have p: "entry lm 1 = None \<or> entry lm 234 = None \<or> entry lm 454 = None \<or> entry lm 152 = None
      \<or> entry lm 10 = None \<longrightarrow> calculateHeadPose lm = (Finite 0, Finite 0)"
    by (simp add: calculateHeadPose_def)
  have m: "entry lm 13 = None \<or> entry lm 14 = None \<or> entry lm 10 = None \<or> entry lm 152 = None \<longrightarrow>
       calculateMouthOpenness lm = Finite 0"
    by (simp add: calculateMouthOpenness_def)
  show ?thesis
    using fs p m not_lookingAway_zero [of v cfg] not_talking_zero [of lm v cfg]
    by (auto simp del: not_None_eq)
qed


lemma entry_face_10:
  "entry face_10 10 = None" "entry face_10 454 = None"
  by (simp_all add: face_10_def entry_def face_talking_def faceWith_def)

lemma frameStatus_face_10:
  "frameStatus App_second INITIAL_CONFIG (browser 10000)
     (INITIAL_STATE\<lparr>latestFaceResults := Some [face_10]\<rparr>)
   = Some (INITIAL_STATUS\<lparr>faceDetected := True\<rparr>)"
proof -
  have p: "calculateHeadPose face_10 = (Finite 0, Finite 0)"
    by (simp add: calculateHeadPose_def entry_face_10)
  have m: "calculateMouthOpenness face_10 = Finite 0"
    by (simp add: calculateMouthOpenness_def entry_face_10)
  show ?thesis
    by (simp add: frameStatus_def analyseFrame_def faceLogic_def multipleFacesBlock_def
        headPoseBlock_def talkingBlock_def talkingCondition_def p m not_lookingAway_zero
        handLogic_def browser_def INITIAL_STATE_def INITIAL_STATUS_def js_gt_def
        TALK_THRESHOLD_def)
qed

theorem C10_missing_landmarks_witness:
  "calculateHeadPose face_10 = (Finite 0, Finite 0)
   \<and> calculateMouthOpenness face_10 = Finite 0
   \<and> \<not> isLookingAway (INITIAL_STATUS\<lparr>faceDetected := True\<rparr>)
   \<and> \<not> isTalking (INITIAL_STATUS\<lparr>faceDetected := True\<rparr>)"
proof -
  have 1: "latestFaceResults (INITIAL_STATE\<lparr>latestFaceResults := Some [face_10]\<rparr>)
      = Some (face_10 # [])"
    by simp
  show ?thesis
    using 1 entry_face_10 frameStatus_face_10
      C10_missing_landmarks [of face_10 "INITIAL_STATE\<lparr>latestFaceResults := Some [face_10]\<rparr>" "[]"
        App_second INITIAL_CONFIG "browser 10000" "INITIAL_STATUS\<lparr>faceDetected := True\<rparr>"]
    by blast
qed


section \<open>The grace period of looking away\<close>






lemma headPoseBlock_cleared:
  "\<not> (case calculateHeadPose lm of (yaw, pitch) \<Rightarrow> lookingAway v cfg yaw pitch) \<Longrightarrow>
   headPoseBlock v cfg h lm st = (False, 0, st\<lparr>lookingAwayStartTime := None\<rparr>)"
  by (auto simp add: headPoseBlock_def split: prod.splits)




lemma away_recent_keeps [simp]:
  "away_recent T (logEvent cfg h ty sev descr st) = away_recent T st"
  "away_recent T (st\<lparr>talkingStartTime := a\<rparr>) = away_recent T st"
  "away_recent T (st\<lparr>missingFaceStartTime := a\<rparr>) = away_recent T st"
  "away_recent T (st\<lparr>previousHandLandmarks := f\<rparr>) = away_recent T st"
  "away_recent T (st\<lparr>status := cs\<rparr>) = away_recent T st"
  "away_recent T (st\<lparr>focusStatus := fs\<rparr>) = away_recent T st"
  "away_recent T (st\<lparr>score := x\<rparr>) = away_recent T st"
  "away_recent T (st\<lparr>latestFaceResults := fr\<rparr>) = away_recent T st"
  "away_recent T (st\<lparr>latestHandResults := hr\<rparr>) = away_recent T st"
  by (simp_all add: away_recent_def)









lemma appends_latest [simp]:
  "appends P (st\<lparr>latestFaceResults := fr\<rparr>) st' = appends P st st'"
  "appends P (st\<lparr>latestHandResults := hr\<rparr>) st' = appends P st st'"
  by (simp_all add: appends_def)


















section \<open>Malformed hands and the voice-activity toggle\<close>

lemma talking_face_talking:
  "talkingCondition v cfg face_talking = (v = App_first \<or> voiceActivityDetection cfg)"
  by (simp add: talkingCondition_def mouth_face_talking js_gt_def TALK_THRESHOLD_def)

lemma headPoseBlock_face_talking:
  "headPoseBlock v cfg h face_talking st = (False, 0, st\<lparr>lookingAwayStartTime := None\<rparr>)"
  by (simp add: headPoseBlock_cleared pose_face_talking not_lookingAway_zero)

lemma distance_hand5: "calculateHandFaceDistance hand5 face = Inl TypeError"
  by (simp add: calculateHandFaceDistance_def hand5_def)

lemma length_hand5: "length hand5 = 5"
  by (simp add: hand5_def)

text \<open>
  The enhanced hand loop of the later versions: a hand landmark set with fewer than 21
  points is skipped, and a frame whose hand sets are all that short is the frame of the
  face logic alone, without exception.
\<close>

lemma handLoop_short:
  "list_all (\<lambda>lm. length lm < 21) hands \<Longrightarrow> handLoop cfg h face i hands acc = Inr acc"
  by (induction hands arbitrary: i) simp_all

lemma handLogic_short:
  assumes "v \<noteq> App_first" and "latestHandResults st = Some hands"
    and "list_all (\<lambda>lm. length lm < 21) hands"
  shows "handLogic v cfg h st = Inr (hands \<noteq> [], False, 0, st)"
proof (cases hands)
  case Nil
  then show ?thesis using assms(2) by (simp add: handLogic_def)
next
  case (Cons lm others)
  then show ?thesis
    using assms handLoop_short [OF assms(3), of cfg h "firstFace st" 0 "(False, 0, st)"]
    by (simp add: handLogic_def)
qed

lemma short_hands_ignored:
  assumes "v \<noteq> App_first" and "latestHandResults st = Some hands"
    and "list_all (\<lambda>lm. length lm < 21) hands"
  shows "analyseFrame v cfg h st =
     (case faceLogic v cfg h st of (status1, d1, st1) \<Rightarrow>
        Inr (status1\<lparr>handsDetected := (hands \<noteq> []), handNearFace := False\<rparr>, d1, st1))"
proof -
  obtain status1 d1 st1 where f: "faceLogic v cfg h st = (status1, d1, st1)"
    by (cases "faceLogic v cfg h st") auto
  have "frame_rel cfg h st st1"
    using frame_rel_faceLogic [where st = st and v = v and cfg = cfg and h = h] f by simp
  then have "latestHandResults st1 = Some hands"
    using assms(2) by (simp add: frame_rel_def)
  from handLogic_short [OF assms(1) this assms(3), of cfg h]
  show ?thesis using f by (simp add: analyseFrame_def)
qed

lemma short_hand_skipped:
  "length lm < 21 \<Longrightarrow>
   handLoop cfg h face i (lm # rest) acc = handLoop cfg h face (Suc i) rest acc"
  by simp

text \<open>
  The talking test of the later versions, for the configuration the callback has captured.
\<close>

lemma talking_needs_toggle:
  assumes "v \<noteq> App_first"
  shows "talkingCondition v cfg lm
     = (js_gt (calculateMouthOpenness lm) (TALK_THRESHOLD v) \<and> voiceActivityDetection cfg)"
  using assms by (simp add: talkingCondition_def)

lemma no_talking_event:
  assumes "v \<noteq> App_first" and "\<not> voiceActivityDetection (c_config cl)"
  shows "appends (\<lambda>e. etype e \<noteq> TALKING) st (snd (processFrame v cl h st))"
proof -
  have n: "\<And>lm. \<not> talkSustained (talkingCondition v (c_config cl) lm) h st"
    using assms by (simp add: talkSustained_def talkingCondition_def)
  show ?thesis
    using appends_processFrame [of v cl h st]
    by (rule appends_mono) (auto simp add: frameEvent_def n split: if_splits option.splits)
qed

lemma toggle_not_a_dependency:
  assumes "closure_ok v st"
  shows "processFrameRef (step v st (SetConfig ToggleVoiceActivityDetection)) = processFrameRef st"
  using assms
  by (auto simp add: rerender_def Let_def processFrame_deps_def logEvent_deps_def
      captureScreenshot_deps_def closure_ok_def split: if_splits)


lemma handNear_first_throws:
  "lm \<in> set hands \<Longrightarrow> 0 < length lm \<Longrightarrow> length lm \<le> 9 \<Longrightarrow>
   handNear_first face hands = Inl TypeError"
proof (induction hands)
  case Nil
  then show ?case by simp
next
  case (Cons x hands)
  show ?case
  proof (cases "lm = x")
    case True
    then have "calculateHandFaceDistance x face = Inl TypeError"
      using Cons.prems by (simp add: calculateHandFaceDistance_def)
    then show ?thesis by simp
  next
    case False
    then have "handNear_first face hands = Inl TypeError"
      using Cons by simp
    then show ?thesis
    proof (cases "calculateHandFaceDistance x face")
      case (Inl e)
      then show ?thesis by (cases e) simp
    next
      case (Inr distance)
      with \<open>handNear_first face hands = Inl TypeError\<close> show ?thesis by simp
    qed
  qed
qed

text \<open>
  Claim C6 against the first version of App.tsx: its hand loop has no check of the number of
  points and passes every hand to \<open>calculateHandFaceDistance\<close>, which reads landmark 9.
  On every frame with a face and a hand landmark set of one to nine points the callback
  throws a TypeError before \<open>setStatus\<close> and \<open>setScore\<close>: the status and the score of the
  frame, face-based deductions included, are lost.
\<close>

theorem C6_first_version_throws:
  assumes "latestFaceResults st = Some (face # others)"
    and "latestHandResults st = Some hands"
    and "lm \<in> set hands" and "0 < length lm" and "length lm \<le> 9"
    and "canvasRef h" and "videoRef h" and "overlayCtx h"
  shows "fst (processFrame App_first cl h st) = Some TypeError
     \<and> score (snd (processFrame App_first cl h st)) = score st
     \<and> status (snd (processFrame App_first cl h st)) = status st"
proof -
  obtain status1 d1 st1 where f: "faceLogic App_first (c_config cl) h st = (status1, d1, st1)"
    by (cases "faceLogic App_first (c_config cl) h st") auto
  have r: "frame_rel (c_config cl) h st st1"
    using frame_rel_faceLogic [where st = st and v = App_first and cfg = "c_config cl" and h = h] f
    by simp
  then have l: "latestHandResults st1 = Some hands" "firstFace st1 = Some face"
    using assms(1,2) by (simp_all add: frame_rel_def firstFace_def)
  obtain x xs where h: "hands = x # xs" using assms(3) by (cases hands) auto
  have "handLogic App_first (c_config cl) h st1 = Inl (TypeError, st1)"
    using l h handNear_first_throws [OF assms(3,4,5), of face] by (simp add: handLogic_def)
  then have "analyseFrame App_first (c_config cl) h st = Inl (TypeError, st1)"
    using f by (simp add: analyseFrame_def)
  then have "processFrame App_first cl h st = (Some TypeError, st1)"
    using assms(6,7,8) by (simp add: processFrame_def)
  then show ?thesis using r by (simp add: frame_rel_def)
qed

theorem C6_first_version_throws_witness:
  "fst (processFrame App_first (processFrameRef two_faces_hand5) (browser 10000) two_faces_hand5)
     = Some TypeError
   \<and> score (snd (processFrame App_first (processFrameRef two_faces_hand5) (browser 10000)
                  two_faces_hand5)) = 100
   \<and> \<not> multipleFaces (status (snd (processFrame App_first (processFrameRef two_faces_hand5)
                  (browser 10000) two_faces_hand5)))
   \<and> fst (processFrame App_first (processFrameRef two_faces) (browser 10000) two_faces) = None
   \<and> score (snd (processFrame App_first (processFrameRef two_faces) (browser 10000) two_faces))
       = 95
   \<and> multipleFaces (status (snd (processFrame App_first (processFrameRef two_faces)
                  (browser 10000) two_faces)))
   \<and> fst (processFrame App_second (processFrameRef two_faces_hand5) (browser 10000)
            two_faces_hand5) = None
   \<and> score (snd (processFrame App_second (processFrameRef two_faces_hand5) (browser 10000)
                  two_faces_hand5)) = 95"
proof -
  have 1: "latestFaceResults two_faces_hand5 = Some (face_talking # [face_talking])"
    "latestHandResults two_faces_hand5 = Some [hand5]"
    "score two_faces_hand5 = 100" "status two_faces_hand5 = INITIAL_STATUS"
    by (simp_all add: two_faces_hand5_def two_faces_def INITIAL_STATE_def)
  have 2: "hand5 \<in> set [hand5]" "0 < length hand5" "length hand5 \<le> 9"
    by (simp_all add: length_hand5)
  have 3: "canvasRef (browser 10000)" "videoRef (browser 10000)" "overlayCtx (browser 10000)"
    by (simp_all add: browser_def)
  have a: "fst (processFrame App_first (processFrameRef two_faces_hand5) (browser 10000)
                  two_faces_hand5) = Some TypeError
     \<and> score (snd (processFrame App_first (processFrameRef two_faces_hand5) (browser 10000)
                  two_faces_hand5)) = 100
     \<and> \<not> multipleFaces (status (snd (processFrame App_first (processFrameRef two_faces_hand5)
                  (browser 10000) two_faces_hand5)))"
    using C6_first_version_throws [OF 1(1) 1(2) 2 3, of "processFrameRef two_faces_hand5"] 1(3,4)
    by (simp add: INITIAL_STATUS_def)
  have b: "fst (processFrame App_first (processFrameRef two_faces) (browser 10000) two_faces) = None
   \<and> score (snd (processFrame App_first (processFrameRef two_faces) (browser 10000) two_faces))
       = 95
   \<and> multipleFaces (status (snd (processFrame App_first (processFrameRef two_faces)
                  (browser 10000) two_faces)))
   \<and> fst (processFrame App_second (processFrameRef two_faces_hand5) (browser 10000)
            two_faces_hand5) = None
   \<and> score (snd (processFrame App_second (processFrameRef two_faces_hand5) (browser 10000)
                  two_faces_hand5)) = 95"
    by (simp add: processFrame_def analyseFrame_def faceLogic_def multipleFacesBlock_def
      headPoseBlock_face_talking talking_face_talking talkingBlock_def handLogic_def
      firstFace_def distance_hand5 length_hand5 logEvent_def captureScreenshot_def
      scoreUpdate_def two_faces_hand5_def two_faces_def browser_def INITIAL_STATE_def
      INITIAL_CONFIG_def INITIAL_STATUS_def unset_def Let_def)
  show ?thesis using a b by blast
qed

text \<open>
  Claim C7 against the second version of App.tsx and part\_004: \<open>processFrame\<close> tests
  \<open>config.voiceActivityDetection\<close>, but its dependency list does not name it, so switching
  the toggle leaves the memoised callback, and the configuration it has captured, as they
  were. After the user disables the toggle (and changes nothing else) an open mouth is still
  flagged as talking, the talking deduction is applied and a TALKING event is logged. When
  a dependency changes as well (here the exam mode) the toggle is seen.
\<close>

theorem C7_toggle_not_seen_by_callback:
  "processFrameRef (step v (run v INITIAL_STATE actions) (SetConfig ToggleVoiceActivityDetection))
     = processFrameRef (run v INITIAL_STATE actions)
   \<and> \<not> voiceActivityDetection (config (run App_second INITIAL_STATE talking_after_toggle))
   \<and> isTalking (status (run App_second INITIAL_STATE talking_after_toggle))
   \<and> score (run App_second INITIAL_STATE talking_after_toggle) = 998/10
   \<and> map etype (events (run App_second INITIAL_STATE talking_after_toggle)) = [TALKING]
   \<and> \<not> voiceActivityDetection (config (run App_part004 INITIAL_STATE talking_after_toggle))
   \<and> isTalking (status (run App_part004 INITIAL_STATE talking_after_toggle))
   \<and> score (run App_part004 INITIAL_STATE talking_after_toggle) = 998/10
   \<and> map etype (events (run App_part004 INITIAL_STATE talking_after_toggle)) = [TALKING]
   \<and> \<not> isTalking (status (run App_second INITIAL_STATE talking_after_two_changes))
   \<and> score (run App_second INITIAL_STATE talking_after_two_changes) = 100
   \<and> events (run App_second INITIAL_STATE talking_after_two_changes) = []"
proof -
  have "closure_ok v (run v INITIAL_STATE actions)"
    using reachable_ok_run [of v actions] by (simp add: reachable_ok_def)
  then have g: "processFrameRef (step v (run v INITIAL_STATE actions)
                   (SetConfig ToggleVoiceActivityDetection))
     = processFrameRef (run v INITIAL_STATE actions)"
    by (rule toggle_not_a_dependency)
  have e: "\<not> voiceActivityDetection (config (run App_second INITIAL_STATE talking_after_toggle))
   \<and> isTalking (status (run App_second INITIAL_STATE talking_after_toggle))
   \<and> score (run App_second INITIAL_STATE talking_after_toggle) = 998/10
   \<and> map etype (events (run App_second INITIAL_STATE talking_after_toggle)) = [TALKING]
   \<and> \<not> voiceActivityDetection (config (run App_part004 INITIAL_STATE talking_after_toggle))
   \<and> isTalking (status (run App_part004 INITIAL_STATE talking_after_toggle))
   \<and> score (run App_part004 INITIAL_STATE talking_after_toggle) = 998/10
   \<and> map etype (events (run App_part004 INITIAL_STATE talking_after_toggle)) = [TALKING]
   \<and> \<not> isTalking (status (run App_second INITIAL_STATE talking_after_two_changes))
   \<and> score (run App_second INITIAL_STATE talking_after_two_changes) = 100
   \<and> events (run App_second INITIAL_STATE talking_after_two_changes) = []"
    by (simp add: run_def talking_after_toggle_def talking_after_two_changes_def rerender_def
      processFrame_deps_def logEvent_deps_def captureScreenshot_deps_def
      processFrame_def analyseFrame_def faceLogic_def multipleFacesBlock_def
      headPoseBlock_face_talking talking_face_talking talkingBlock_def handLogic_def
      logEvent_def captureScreenshot_def scoreUpdate_def updateFocusStatus_def
      browser_def INITIAL_STATE_def INITIAL_CONFIG_def INITIAL_STATUS_def unset_def Let_def)
  show ?thesis using g e by blast
qed


section \<open>Debouncing\<close>








end
